theory Spec2Isabelle
  imports Complex_Main
begin

unbundle bit_operations_syntax

section \<open>The Python runtime, as far as the parser uses it\<close>

text \<open>
  The parser is one Python module, \<^verbatim>\<open>osu_mania_parser.py\<close>. It uses \<^verbatim>\<open>str.split\<close>,
  \<^verbatim>\<open>str.startswith\<close>, \<^verbatim>\<open>int()\<close>, \<^verbatim>\<open>float()\<close>, float division, \<^verbatim>\<open>round\<close>, \<^verbatim>\<open>abs\<close>,
  list indexing, \<^verbatim>\<open>list.sort\<close> and one regular expression. Each of them is written out
  here as a total function; an exception of the source is the \<open>Inl\<close> branch of a sum.
  Python's \<^verbatim>\<open>int\<close> is \<^typ>\<open>int\<close>, a \<^verbatim>\<open>str\<close> is a \<^typ>\<open>string\<close> (of ASCII characters).
\<close>

datatype error =
    FileNotFoundError
  | IndexError
  | ValueError string
  | ZeroDivisionError
  | OverflowError

text \<open>The two \<^verbatim>\<open>ValueError\<close>s the module raises itself, by their messages.\<close>

definition UnknownHitObjectType :: error where
  "UnknownHitObjectType = ValueError ''Unknown hit object type!''"

definition InvalidGameMode :: error where
  "InvalidGameMode = ValueError ''Beatmap's game mode is not set to osu!mania.''"

definition bind :: "error + 'a \<Rightarrow> ('a \<Rightarrow> error + 'b) \<Rightarrow> error + 'b" where
  "bind m f = (case m of Inl e \<Rightarrow> Inl e | Inr v \<Rightarrow> f v)"

subsection \<open>Strings\<close>

text \<open>
  \<^verbatim>\<open>s.split(sep)\<close> for a non-empty separator: the occurrences of \<open>sep\<close> are found from
  the left and do not overlap; \<open>n\<close> occurrences give \<open>n + 1\<close> pieces, empty ones included.
  Every call site passes a literal, non-empty separator.
\<close>

function split_aux :: "string \<Rightarrow> string \<Rightarrow> string \<Rightarrow> string list" where
  "split_aux sep acc [] = [rev acc]"
| "split_aux sep acc (c # cs) =
     (if sep \<noteq> [] \<and> take (length sep) (c # cs) = sep
      then rev acc # split_aux sep [] (drop (length sep) (c # cs))
      else split_aux sep (c # acc) cs)"
  by pat_completeness auto
termination
  by (relation "measure (\<lambda>(sep, acc, s). length s)") auto

definition split_str :: "string \<Rightarrow> string \<Rightarrow> string list" where
  "split_str sep s = split_aux sep [] s"

definition startswith :: "string \<Rightarrow> string \<Rightarrow> bool" where
  "startswith p s = (take (length p) s = p)"

text \<open>\<^verbatim>\<open>xs[i]\<close> for a non-negative literal index.\<close>

definition get :: "'a list \<Rightarrow> nat \<Rightarrow> error + 'a" where
  "get xs i = (if i < length xs then Inr (xs ! i) else Inl IndexError)"

definition is_digit :: "char \<Rightarrow> bool" where
  "is_digit c = (48 \<le> (of_char c :: nat) \<and> (of_char c :: nat) \<le> 57)"

definition digit_val :: "char \<Rightarrow> int" where
  "digit_val c = of_char c - 48"

definition is_alnum :: "char \<Rightarrow> bool" where
  "is_alnum c = (let n = (of_char c :: nat) in
     (48 \<le> n \<and> n \<le> 57) \<or> (65 \<le> n \<and> n \<le> 90) \<or> (97 \<le> n \<and> n \<le> 122))"

text \<open>The characters \<^verbatim>\<open>int()\<close> and \<^verbatim>\<open>float()\<close> strip from an ASCII string: tab to
  carriage return, and the space.\<close>

definition is_space :: "char \<Rightarrow> bool" where
  "is_space c = (let n = (of_char c :: nat) in (9 \<le> n \<and> n \<le> 13) \<or> n = 32)"

definition strip :: "string \<Rightarrow> string" where
  "strip s = rev (dropWhile is_space (rev (dropWhile is_space s)))"

definition lower :: "string \<Rightarrow> string" where
  "lower s = map (\<lambda>c. if 65 \<le> (of_char c :: nat) \<and> (of_char c :: nat) \<le> 90
                        then char_of ((of_char c :: nat) + 32) else c) s"

subsection \<open>\<^verbatim>\<open>int(s)\<close>\<close>

text \<open>
  A digit part is a digit followed by digits, each optionally preceded by one underscore.
  \<open>digitpart\<close> reads the rest of a digit part after its first digit and returns the value
  with the number of digits read.
\<close>

fun digitpart :: "int \<times> nat \<Rightarrow> string \<Rightarrow> (int \<times> nat) option" where
  "digitpart (v, k) [] = Some (v, k)"
| "digitpart (v, k) [c] =
     (if is_digit c then Some (10 * v + digit_val c, Suc k) else None)"
| "digitpart (v, k) (c # d # cs) =
     (if is_digit c then digitpart (10 * v + digit_val c, Suc k) (d # cs)
      else if c = CHR ''_'' \<and> is_digit d then digitpart (v, k) (d # cs)
      else None)"

definition digits :: "string \<Rightarrow> (int \<times> nat) option" where
  "digits s = (case s of [] \<Rightarrow> None
     | c # cs \<Rightarrow> if is_digit c then digitpart (digit_val c, 1) cs else None)"

definition signed :: "string \<Rightarrow> bool \<times> string" where
  "signed s = (case s of [] \<Rightarrow> (False, [])
     | c # cs \<Rightarrow> if c = CHR ''-'' then (True, cs) else if c = CHR ''+'' then (False, cs)
                else (False, c # cs))"

definition py_int :: "string \<Rightarrow> error + int" where
  "py_int s = (let (neg, body) = signed (strip s) in
     case digits body of
       None \<Rightarrow> Inl (ValueError ''invalid literal for int() with base 10'')
     | Some (v, k) \<Rightarrow> Inr (if neg then - v else v))"

subsection \<open>Floats\<close>

text \<open>
  A Python \<^verbatim>\<open>float\<close> is an IEEE 754 binary64 value: a finite value, which is a rational
  number, one of the two infinities, or not-a-number. The two zeros are one value here:
  the parser never observes the sign of a zero (it compares with \<^verbatim>\<open>> 0\<close> and takes
  \<^verbatim>\<open>abs\<close>).
\<close>

datatype pyfloat = Fin rat | PInf | NInf | NaN

definition pow2 :: "int \<Rightarrow> rat" where
  "pow2 k = (if 0 \<le> k then of_int (2 ^ nat k) else 1 / of_int (2 ^ nat (- k)))"

text \<open>The number of binary digits of a positive integer.\<close>

function bitlen :: "int \<Rightarrow> int" where
  "bitlen n = (if 0 < n then 1 + bitlen (n div 2) else 0)"
  by pat_completeness auto
termination
  by (relation "measure nat") auto

text \<open>\<open>ilog2 a\<close> is the integer \<open>e\<close> with \<open>2\<^sup>e \<le> a < 2\<^sup>e\<^sup>+\<^sup>1\<close>, for \<open>a > 0\<close>.\<close>

definition ilog2 :: "rat \<Rightarrow> int" where
  "ilog2 a = (let (n, d) = quotient_of a; k = bitlen n - bitlen d
              in if pow2 k \<le> a then k else k - 1)"

text \<open>Rounding to the nearest integer, ties to the even one: Python's \<^verbatim>\<open>round(x)\<close>, and
  the rounding of the binary64 significand.\<close>

definition round_half_even :: "rat \<Rightarrow> int" where
  "round_half_even q = (let f = \<lfloor>q\<rfloor>; d = q - of_int f in
     if d < 1 / 2 then f else if 1 / 2 < d then f + 1
     else if even f then f else f + 1)"

text \<open>
  \<open>binary64 q\<close> is the binary64 value nearest to the rational \<open>q\<close>: a significand of
  53 bits, exponents from \<open>-1022\<close> (below it the spacing stays \<open>2\<^sup>-\<^sup>1\<^sup>0\<^sup>7\<^sup>4\<close>), and an
  infinity when the rounded magnitude reaches \<open>2\<^sup>1\<^sup>0\<^sup>2\<^sup>4\<close>.
\<close>

definition binary64 :: "rat \<Rightarrow> pyfloat" where
  "binary64 q =
     (if q = 0 then Fin 0
      else let a = \<bar>q\<bar>;
               u = pow2 (max (ilog2 a) (- 1022) - 52);
               r = of_int (round_half_even (a / u)) * u
           in if pow2 1024 \<le> r then (if 0 < q then PInf else NInf)
              else Fin (if 0 < q then r else - r))"

text \<open>\<^verbatim>\<open>x > 0\<close>, \<^verbatim>\<open>abs(x)\<close>, \<^verbatim>\<open>x / y\<close> and \<^verbatim>\<open>round(x)\<close> on floats.\<close>

fun gt_zero :: "pyfloat \<Rightarrow> bool" where
  "gt_zero (Fin q) = (0 < q)"
| "gt_zero PInf = True"
| "gt_zero NInf = False"
| "gt_zero NaN = False"

fun py_abs :: "pyfloat \<Rightarrow> pyfloat" where
  "py_abs (Fin q) = Fin \<bar>q\<bar>"
| "py_abs PInf = PInf"
| "py_abs NInf = PInf"
| "py_abs NaN = NaN"

fun truediv :: "pyfloat \<Rightarrow> pyfloat \<Rightarrow> error + pyfloat" where
  "truediv a (Fin y) =
     (if y = 0 then Inl ZeroDivisionError
      else case a of
        Fin x \<Rightarrow> Inr (binary64 (x / y))
      | PInf \<Rightarrow> Inr (if 0 < y then PInf else NInf)
      | NInf \<Rightarrow> Inr (if 0 < y then NInf else PInf)
      | NaN \<Rightarrow> Inr NaN)"
| "truediv a NaN = Inr NaN"
| "truediv (Fin x) b = Inr (Fin 0)"
| "truediv a b = Inr NaN"

definition py_round :: "pyfloat \<Rightarrow> error + int" where
  "py_round x = (case x of
       Fin q \<Rightarrow> Inr (round_half_even q)
     | PInf \<Rightarrow> Inl OverflowError
     | NInf \<Rightarrow> Inl OverflowError
     | NaN \<Rightarrow> Inl (ValueError ''cannot convert float NaN to integer''))"

subsection \<open>\<^verbatim>\<open>float(s)\<close>\<close>

text \<open>
  After stripping and an optional sign: \<^verbatim>\<open>inf\<close>, \<^verbatim>\<open>infinity\<close> or \<^verbatim>\<open>nan\<close> in any case, or
  a decimal number: a digit part, a point and a digit part (one of the two digit parts
  may be missing), and an optional exponent \<^verbatim>\<open>e\<close> or \<^verbatim>\<open>E\<close>, sign, digit part. The
  decimal number is read exactly and rounded once.
\<close>

definition cut :: "(char \<Rightarrow> bool) \<Rightarrow> string \<Rightarrow> string \<times> string option" where
  "cut P s = (case dropWhile (\<lambda>c. \<not> P c) s of
       [] \<Rightarrow> (s, None)
     | c # rest \<Rightarrow> (takeWhile (\<lambda>c. \<not> P c) s, Some rest))"

definition mantissa :: "string \<Rightarrow> (int \<times> nat) option" where
  "mantissa s = (case cut (\<lambda>c. c = CHR ''.'') s of
       (ip, None) \<Rightarrow> (case digits ip of None \<Rightarrow> None | Some (v, k) \<Rightarrow> Some (v, 0))
     | (ip, Some fp) \<Rightarrow>
         (if ip = [] then digits fp
          else case digits ip of None \<Rightarrow> None
               | Some (v, k) \<Rightarrow>
                   (if fp = [] then Some (v, 0)
                    else case digitpart (v, 0) fp of None \<Rightarrow> None
                         | Some (w, j) \<Rightarrow> if is_digit (hd fp) then Some (w, j) else None)))"

definition exponent :: "string option \<Rightarrow> int option" where
  "exponent e = (case e of None \<Rightarrow> Some 0
     | Some s \<Rightarrow> (let (neg, body) = signed s in
         case digits body of None \<Rightarrow> None
         | Some (v, k) \<Rightarrow> Some (if neg then - v else v)))"

definition pow10 :: "int \<Rightarrow> rat" where
  "pow10 k = (if 0 \<le> k then of_int (10 ^ nat k) else 1 / of_int (10 ^ nat (- k)))"

definition decimal :: "string \<Rightarrow> rat option" where
  "decimal s = (case cut (\<lambda>c. c = CHR ''e'' \<or> c = CHR ''E'') s of (m, e) \<Rightarrow>
     (case mantissa m of None \<Rightarrow> None
      | Some (v, k) \<Rightarrow>
          (case exponent e of None \<Rightarrow> None
           | Some x \<Rightarrow> Some (of_int v * pow10 (x - int k)))))"

definition py_float :: "string \<Rightarrow> error + pyfloat" where
  "py_float s = (let (neg, body) = signed (strip s) in
     if lower body = ''inf'' \<or> lower body = ''infinity'' then Inr (if neg then NInf else PInf)
     else if lower body = ''nan'' then Inr NaN
     else case decimal body of
       None \<Rightarrow> Inl (ValueError ''could not convert string to float'')
     | Some q \<Rightarrow> Inr (binary64 (if neg then - q else q)))"

section \<open>Timing points\<close>

record TimingPoint =
  time :: int
  velocity :: pyfloat
  timing_signature :: int
  sample_set :: int
  sample_index :: int
  volume :: int
  uninherited :: bool
  kiai_time :: bool
  omit_first_bar_line :: bool
  bpm :: "int option"

text \<open>
  \<^verbatim>\<open>TimingPoint.parse\<close>. The statements run in the source's order, so the first
  exception of the source is the error returned: the beat length, the division and the
  rounding, the effects field, then the fields in the order of the constructor call.
\<close>

definition TimingPoint_parse :: "string \<Rightarrow> error + TimingPoint" where
  "TimingPoint_parse line =
    (let members = split_str '','' line in
     bind (bind (get members 1) py_float) (\<lambda>beat_length.
     bind (if gt_zero beat_length
           then bind (bind (truediv (Fin 60000) beat_length) py_round) (\<lambda>r. Inr (r, Fin 1))
           else bind (truediv (Fin 100) beat_length) (\<lambda>q. Inr (0, py_abs q)))
       (\<lambda>(bpm', velocity').
     bind (bind (get members 7) py_int) (\<lambda>effects.
     bind (bind (get members 0) py_int) (\<lambda>time'.
     bind (bind (get members 2) py_int) (\<lambda>timing_signature'.
     bind (bind (get members 3) py_int) (\<lambda>sample_set'.
     bind (bind (get members 4) py_int) (\<lambda>sample_index'.
     bind (bind (get members 5) py_int) (\<lambda>volume'.
     bind (get members 6) (\<lambda>m6.
       Inr \<lparr> time = time',
             velocity = velocity',
             timing_signature = timing_signature',
             sample_set = sample_set',
             sample_index = sample_index',
             volume = volume',
             uninherited = (m6 = ''1''),
             kiai_time = (effects AND 1 \<noteq> 0),
             omit_first_bar_line = (effects AND 4 \<noteq> 0),
             bpm = (if bpm' \<noteq> 0 then Some bpm' else None) \<rparr>))))))))))"

section \<open>Hit objects\<close>

record HitObject =
  type :: string
  hit_sound :: "string list"
  new_combo :: bool
  combo_colors_skipped :: int
  x :: int
  y :: int
  time :: int
  end_time :: int

text \<open>The four appends to \<^verbatim>\<open>hitsounds\<close> and the default.\<close>

definition hitsounds_of :: "int \<Rightarrow> string list" where
  "hitsounds_of hitsound_flags =
    (let hs = (if hitsound_flags AND 1 \<noteq> 0 then [''normal''] else [])
            @ (if hitsound_flags AND 2 \<noteq> 0 then [''whistle''] else [])
            @ (if hitsound_flags AND 4 \<noteq> 0 then [''finish''] else [])
            @ (if hitsound_flags AND 8 \<noteq> 0 then [''clap''] else [])
     in if length hs = 0 then hs @ [''normal''] else hs)"

definition HitObject_parse :: "string \<Rightarrow> error + HitObject" where
  "HitObject_parse line =
    (let members = split_str '','' line in
     bind (bind (get members 3) py_int) (\<lambda>type_flags.
     let note = (type_flags AND 1 \<noteq> 0);
         hold = (type_flags AND 128 \<noteq> 0);
         new_combo' = (type_flags AND 4 \<noteq> 0);
         combo_colors_skipped' = (type_flags AND 28) div 4
     in
     bind (bind (get members 4) py_int) (\<lambda>hitsound_flags.
     let hitsounds = hitsounds_of hitsound_flags in
     if note then
       bind (bind (get members 0) py_int) (\<lambda>x'.
       bind (bind (get members 1) py_int) (\<lambda>y'.
       bind (bind (get members 2) py_int) (\<lambda>time'.
       bind (bind (get members 2) py_int) (\<lambda>end_time'.
         Inr \<lparr> type = ''note'', hit_sound = hitsounds, new_combo = new_combo',
               combo_colors_skipped = combo_colors_skipped',
               x = x', y = y', time = time', end_time = end_time' \<rparr>))))
     else if hold then
       bind (bind (get members 0) py_int) (\<lambda>x'.
       bind (bind (get members 1) py_int) (\<lambda>y'.
       bind (bind (get members 2) py_int) (\<lambda>time'.
       bind (bind (bind (get members 5) (\<lambda>m5. get (split_str '':'' m5) 0)) py_int) (\<lambda>end_time'.
         Inr \<lparr> type = ''hold'', hit_sound = hitsounds, new_combo = new_combo',
               combo_colors_skipped = combo_colors_skipped',
               x = x', y = y', time = time', end_time = end_time' \<rparr>))))
     else Inl UnknownHitObjectType)))"

section \<open>The beatmap\<close>

record Beatmap =
  title :: string
  artist :: string
  creator :: string
  version :: string
  source :: string
  tags :: "string list"
  map_id :: int
  mapset_id :: int
  preview_time :: int
  key_count :: int
  hp_drain :: pyfloat
  difficulty :: pyfloat
  key_positions :: "int list"
  min_bpm :: int
  max_bpm :: int
  nb_notes :: int
  nb_holds :: int
  timing_points :: "TimingPoint list"
  hit_objects :: "HitObject list"

text \<open>\<^verbatim>\<open>Beatmap()\<close>: every field at its default.\<close>

definition Beatmap_init :: Beatmap where
  "Beatmap_init =
    \<lparr> title = [], artist = [], creator = [], version = [], source = [], tags = [],
      map_id = 0, mapset_id = 0, preview_time = 0, key_count = 0,
      hp_drain = Fin 0, difficulty = Fin 0, key_positions = [],
      min_bpm = 0, max_bpm = 0, nb_notes = 0, nb_holds = 0,
      timing_points = [], hit_objects = [] \<rparr>"

text \<open>
  \<^verbatim>\<open>get_timing_point\<close>: the loop \<^verbatim>\<open>for i in range(len - 1, -1, -1)\<close> visits the indices
  \<open>n - 1\<close> down to \<open>0\<close>; \<open>scan_back tps n t\<close> is the loop with \<open>n\<close> indices left. After
  the loop, \<^verbatim>\<open>timing_points[0]\<close> raises \<^verbatim>\<open>IndexError\<close> on the empty list.
\<close>

fun scan_back :: "TimingPoint list \<Rightarrow> nat \<Rightarrow> int \<Rightarrow> TimingPoint option" where
  "scan_back tps 0 t = None"
| "scan_back tps (Suc i) t =
     (if TimingPoint.time (tps ! i) \<le> t then Some (tps ! i) else scan_back tps i t)"

definition get_timing_point :: "Beatmap \<Rightarrow> int \<Rightarrow> error + TimingPoint" where
  "get_timing_point self t =
    (case scan_back (timing_points self) (length (timing_points self)) t of
       Some p \<Rightarrow> Inr p
     | None \<Rightarrow> get (timing_points self) 0)"

definition add_timing_point :: "Beatmap \<Rightarrow> string \<Rightarrow> error + Beatmap" where
  "add_timing_point self line =
    bind (TimingPoint_parse line) (\<lambda>timing_point.
      let bpm' = (case bpm timing_point of Some b \<Rightarrow> b | None \<Rightarrow> 0);
          self1 = (if min_bpm self = 0 then self\<lparr>min_bpm := bpm'\<rparr>
                   else if bpm timing_point \<noteq> None \<and> min_bpm self > the (bpm timing_point)
                        then self\<lparr>min_bpm := bpm'\<rparr> else self);
          self2 = (if max_bpm self1 = 0 then self1\<lparr>max_bpm := bpm'\<rparr>
                   else if bpm timing_point \<noteq> None \<and> max_bpm self1 < the (bpm timing_point)
                        then self1\<lparr>max_bpm := bpm'\<rparr> else self1)
      in Inr (self2\<lparr>timing_points := timing_points self2 @ [timing_point]\<rparr>))"

definition add_hit_object :: "Beatmap \<Rightarrow> string \<Rightarrow> error + Beatmap" where
  "add_hit_object self line =
    bind (HitObject_parse line) (\<lambda>hit_object.
      let self1 = (if type hit_object = ''note'' then self\<lparr>nb_notes := nb_notes self + 1\<rparr>
                   else if type hit_object = ''hold'' then self\<lparr>nb_holds := nb_holds self + 1\<rparr>
                   else self);
          self2 = (if x hit_object \<notin> set (key_positions self1)
                   then self1\<lparr>key_positions := key_positions self1 @ [x hit_object]\<rparr>
                   else self1)
      in Inr (self2\<lparr>hit_objects := hit_objects self2 @ [hit_object]\<rparr>))"

section \<open>Parsing a file\<close>

text \<open>
  The regular expression \<^verbatim>\<open>^\[([a-zA-Z0-9]+)\]$\<close> under \<^verbatim>\<open>re.match\<close>: an opening bracket, one
  or more ASCII letters or digits, a closing bracket, and then the end of the string or
  one newline before the end of the string (so \<^verbatim>\<open>$\<close> matches). The result is group 1.
\<close>

definition section_reg_match :: "string \<Rightarrow> string option" where
  "section_reg_match line =
    (let l = (if line \<noteq> [] \<and> last line = CHR 0x0A then butlast line else line) in
     if 3 \<le> length l \<and> hd l = CHR ''['' \<and> last l = CHR '']''
        \<and> list_all is_alnum (butlast (tl l))
     then Some (butlast (tl l)) else None)"

text \<open>The lines of the file: split at carriage return and line feed, without the comments
  and the empty lines.\<close>

definition CRLF :: string where
  "CRLF = [CHR 0x0D, CHR 0x0A]"

definition lines_of :: "string \<Rightarrow> string list" where
  "lines_of contents =
    filter (\<lambda>line. \<not> startswith ''//'' line \<and> line \<noteq> [])
      (split_str CRLF contents)"

text \<open>
  One turn of the loop \<^verbatim>\<open>for line in lines\<close>. The state is the beatmap under
  construction and \<^verbatim>\<open>section_to_read\<close>. In the sections \<^verbatim>\<open>General\<close> and \<^verbatim>\<open>Difficulty\<close>
  the source appends an empty string to the pieces, so that index 1 exists; in
  \<^verbatim>\<open>Metadata\<close> it does not, and \<^verbatim>\<open>mdata[1]\<close> can raise.
\<close>

definition process_line :: "Beatmap \<times> string \<Rightarrow> string \<Rightarrow> error + Beatmap \<times> string" where
  "process_line st line =
    (case st of (beatmap, section_to_read) \<Rightarrow>
     (case section_reg_match line of
       Some name \<Rightarrow> Inr (beatmap, name)
     | None \<Rightarrow>
        if section_to_read = ''General'' then
          (let gen = split_str '': '' line @ [[]] in
           if gen ! 0 = ''Mode'' then
             (if gen ! 1 \<noteq> ''3'' then Inl InvalidGameMode else Inr (beatmap, section_to_read))
           else if gen ! 0 = ''PreviewTime'' then
             bind (py_int (gen ! 1)) (\<lambda>v. Inr (beatmap\<lparr>preview_time := v\<rparr>, section_to_read))
           else Inr (beatmap, section_to_read))
        else if section_to_read = ''Metadata'' then
          (let mdata = split_str '':'' line in
           if mdata ! 0 = ''Title'' then
             bind (get mdata 1) (\<lambda>v. Inr (beatmap\<lparr>title := v\<rparr>, section_to_read))
           else if mdata ! 0 = ''Artist'' then
             bind (get mdata 1) (\<lambda>v. Inr (beatmap\<lparr>artist := v\<rparr>, section_to_read))
           else if mdata ! 0 = ''Creator'' then
             bind (get mdata 1) (\<lambda>v. Inr (beatmap\<lparr>creator := v\<rparr>, section_to_read))
           else if mdata ! 0 = ''Version'' then
             bind (get mdata 1) (\<lambda>v. Inr (beatmap\<lparr>version := v\<rparr>, section_to_read))
           else if mdata ! 0 = ''Tags'' then
             bind (get mdata 1)
               (\<lambda>v. Inr (beatmap\<lparr>tags := split_str '' '' v\<rparr>, section_to_read))
           else if mdata ! 0 = ''BeatmapID'' then
             bind (bind (get mdata 1) py_int)
               (\<lambda>v. Inr (beatmap\<lparr>map_id := v\<rparr>, section_to_read))
           else if mdata ! 0 = ''BeatmapSetID'' then
             bind (bind (get mdata 1) py_int)
               (\<lambda>v. Inr (beatmap\<lparr>mapset_id := v\<rparr>, section_to_read))
           else Inr (beatmap, section_to_read))
        else if section_to_read = ''Difficulty'' then
          (let diff = split_str '':'' line @ [[]] in
           if diff ! 0 = ''HPDrainRate'' then
             bind (py_float (diff ! 1)) (\<lambda>v. Inr (beatmap\<lparr>hp_drain := v\<rparr>, section_to_read))
           else if diff ! 0 = ''CircleSize'' then
             bind (py_int (diff ! 1)) (\<lambda>v. Inr (beatmap\<lparr>key_count := v\<rparr>, section_to_read))
           else if diff ! 0 = ''OverallDifficulty'' then
             bind (py_float (diff ! 1))
               (\<lambda>v. Inr (beatmap\<lparr>difficulty := v\<rparr>, section_to_read))
           else Inr (beatmap, section_to_read))
        else if section_to_read = ''TimingPoints'' then
          bind (add_timing_point beatmap line) (\<lambda>b. Inr (b, section_to_read))
        else if section_to_read = ''HitObjects'' then
          bind (add_hit_object beatmap line) (\<lambda>b. Inr (b, section_to_read))
        else Inr (beatmap, section_to_read)))"

text \<open>The loop: an exception ends it, and the lines after the failing one are not read.\<close>

fun process_lines :: "Beatmap \<times> string \<Rightarrow> string list \<Rightarrow> error + Beatmap \<times> string" where
  "process_lines st [] = Inr st"
| "process_lines st (line # lines) =
     bind (process_line st line) (\<lambda>st'. process_lines st' lines)"

definition parse_contents :: "string \<Rightarrow> error + Beatmap" where
  "parse_contents contents =
    bind (process_lines (Beatmap_init, []) (lines_of contents))
      (\<lambda>st. Inr ((fst st)\<lparr>key_positions := sort (key_positions (fst st))\<rparr>))"

text \<open>
  Reading the file. The source opens it with \<^verbatim>\<open>open(path, 'r', encoding='utf-8')\<close> and
  leaves \<^verbatim>\<open>newline\<close> at its default, so \<^verbatim>\<open>f.read()\<close> translates the line endings:
  a carriage return followed by a line feed, and a carriage return alone, each reach the
  program as one line feed.
\<close>

fun universal_newlines :: "string \<Rightarrow> string" where
  "universal_newlines [] = []"
| "universal_newlines [c] = [if c = CHR 0x0D then CHR 0x0A else c]"
| "universal_newlines (c # d # cs) =
     (if c = CHR 0x0D \<and> d = CHR 0x0A then CHR 0x0A # universal_newlines cs
      else if c = CHR 0x0D then CHR 0x0A # universal_newlines (d # cs)
      else c # universal_newlines (d # cs))"

text \<open>
  \<^verbatim>\<open>parse_file_sync\<close>. The storage is a parameter: \<open>fs\<close> maps the path of a file to the
  characters stored in it, and an absent path to nothing.
\<close>

definition parse_file_sync :: "(string \<rightharpoonup> string) \<Rightarrow> string \<Rightarrow> error + Beatmap" where
  "parse_file_sync fs path =
    (case fs path of
       None \<Rightarrow> Inl FileNotFoundError
     | Some stored \<Rightarrow> parse_contents (universal_newlines stored))"

text \<open>The \<open>i\<close>-th comma-separated field of a line, read as an integer: \<^verbatim>\<open>int(members[i])\<close>.\<close>

abbreviation int_field :: "string \<Rightarrow> nat \<Rightarrow> error + int" where
  "int_field line i \<equiv> bind (get (split_str '','' line) i) py_int"

text \<open>The \<open>i\<close>-th comma-separated field read as a float: \<^verbatim>\<open>float(members[i])\<close>.\<close>

abbreviation float_field :: "string \<Rightarrow> nat \<Rightarrow> error + pyfloat" where
  "float_field line i \<equiv> bind (get (split_str '','' line) i) py_float"

section \<open>Properties of a beatmap\<close>

text \<open>The two counters count the hit objects.\<close>

definition counts_agree :: "Beatmap \<Rightarrow> bool" where
  "counts_agree bm \<longleftrightarrow> nb_notes bm + nb_holds bm = int (length (hit_objects bm))"


text \<open>
  The tempo bounds: every tempo of a timing point is positive; as long as no timing point
  has a tempo both bounds are 0, and from the first one on they are positive and ordered.
\<close>

definition bpm_bounds :: "Beatmap \<Rightarrow> bool" where
  "bpm_bounds bm \<longleftrightarrow>
     (\<forall>tp \<in> set (timing_points bm). \<forall>b. bpm tp = Some b \<longrightarrow> 0 < b) \<and>
     (if \<forall>tp \<in> set (timing_points bm). bpm tp = None
      then min_bpm bm = 0 \<and> max_bpm bm = 0
      else 0 < min_bpm bm \<and> min_bpm bm \<le> max_bpm bm)"

text \<open>
  The beatmaps that the class can build: \<^verbatim>\<open>Beatmap()\<close>, followed by calls of
  \<^verbatim>\<open>add_timing_point\<close> and \<^verbatim>\<open>add_hit_object\<close> that return. These are the calls that the
  loop of \<^verbatim>\<open>parse_file_sync\<close> makes for the lines of the two sections.
\<close>

inductive built :: "Beatmap \<Rightarrow> bool" where
  init: "built Beatmap_init"
| timing_point: "built bm \<Longrightarrow> add_timing_point bm line = Inr bm' \<Longrightarrow> built bm'"
| hit_object: "built bm \<Longrightarrow> add_hit_object bm line = Inr bm' \<Longrightarrow> built bm'"

text \<open>\<^verbatim>\<open>x < 0\<close> on floats.\<close>

fun lt_zero :: "pyfloat \<Rightarrow> bool" where
  "lt_zero (Fin q) = (q < 0)"
| "lt_zero PInf = False"
| "lt_zero NInf = True"
| "lt_zero NaN = False"

section \<open>Example data\<close>

text \<open>A small beatmap file with Windows line endings, made of the example lines of the
  format.\<close>

definition example_lines :: "string list" where
  "example_lines =
    [''osu file format v14'',
     ''[General]'', ''Mode: 3'', ''PreviewTime: 1200'',
     ''[TimingPoints]'', ''320,789.473684210526,4,2,1,60,1,0'', ''1000,-50,4,2,0,40,0,0'',
     ''[HitObjects]'', ''192,192,500,128,0,1000:0:0:0:0:'', ''64,192,350,1,0,0:0:0:0:'',
     ''64,192,750,1,2,0:0:0:0:'']"

definition example_file :: string where
  "example_file = concat (map (\<lambda>l. l @ CRLF) example_lines)"

text \<open>The timing points and hit objects of these lines.\<close>

definition tp_320 :: TimingPoint where
  "tp_320 = \<lparr>TimingPoint.time = 320, velocity = Fin 1, timing_signature = 4, sample_set = 2,
             sample_index = 1, volume = 60, uninherited = True, kiai_time = False,
             omit_first_bar_line = False, bpm = Some 76\<rparr>"

definition tp_1000 :: TimingPoint where
  "tp_1000 = \<lparr>TimingPoint.time = 1000, velocity = Fin 2, timing_signature = 4, sample_set = 2,
             sample_index = 0, volume = 40, uninherited = False, kiai_time = False,
             omit_first_bar_line = False, bpm = None\<rparr>"

definition hold_500 :: HitObject where
  "hold_500 = \<lparr>type = ''hold'', hit_sound = [''normal''], new_combo = False,
             combo_colors_skipped = 0, x = 192, y = 192, time = 500, end_time = 1000\<rparr>"

definition note_350 :: HitObject where
  "note_350 = \<lparr>type = ''note'', hit_sound = [''normal''], new_combo = False,
             combo_colors_skipped = 0, x = 64, y = 192, time = 350, end_time = 350\<rparr>"

definition note_750 :: HitObject where
  "note_750 = \<lparr>type = ''note'', hit_sound = [''whistle''], new_combo = False,
             combo_colors_skipped = 0, x = 64, y = 192, time = 750, end_time = 750\<rparr>"

text \<open>The beatmap that the first four calls build, and the one that all five build.\<close>

definition example_before_last :: Beatmap where
  "example_before_last =
    Beatmap_init
      \<lparr> key_positions := [192, 64],
        min_bpm := 76, max_bpm := 76, nb_notes := 1, nb_holds := 1,
        timing_points := [tp_320, tp_1000],
        hit_objects := [hold_500, note_350] \<rparr>"


definition example_beatmap :: Beatmap where
  "example_beatmap =
    Beatmap_init
      \<lparr> key_positions := [192, 64],
        min_bpm := 76, max_bpm := 76, nb_notes := 2, nb_holds := 1,
        timing_points := [tp_320, tp_1000],
        hit_objects := [hold_500, note_350, note_750] \<rparr>"

text \<open>Two more timing points, and two beatmaps built from timing points that are not in
  ascending order of time, or share a time.\<close>

definition tp_1000_red :: TimingPoint where
  "tp_1000_red = \<lparr>TimingPoint.time = 1000, velocity = Fin 1, timing_signature = 4,
             sample_set = 2, sample_index = 0, volume = 40, uninherited = True,
             kiai_time = False, omit_first_bar_line = False, bpm = Some 120\<rparr>"

definition unsorted_beatmap :: Beatmap where
  "unsorted_beatmap =
    Beatmap_init \<lparr> min_bpm := 76, max_bpm := 76, timing_points := [tp_1000, tp_320] \<rparr>"

definition same_time_beatmap :: Beatmap where
  "same_time_beatmap =
    Beatmap_init \<lparr> min_bpm := 120, max_bpm := 120, timing_points := [tp_1000_red, tp_1000] \<rparr>"

text \<open>The timing points of a list that start at or before \<open>t\<close>.\<close>

abbreviation upto_time :: "int \<Rightarrow> TimingPoint list \<Rightarrow> TimingPoint list" where
  "upto_time t tps \<equiv> filter (\<lambda>p. TimingPoint.time p \<le> t) tps"

text \<open>A timing point whose uninherited field reads \<^verbatim>\<open>1\<close> and whose beat length is negative.\<close>

definition tp_0_marked :: TimingPoint where
  "tp_0_marked = \<lparr>TimingPoint.time = 0, velocity = Fin 1, timing_signature = 4,
             sample_set = 2, sample_index = 0, volume = 40, uninherited = True,
             kiai_time = False, omit_first_bar_line = False, bpm = None\<rparr>"

text \<open>
  The part of \<^verbatim>\<open>TimingPoint.parse\<close> that depends on the beat length alone: \<^verbatim>\<open>bpm = 0\<close>,
  \<^verbatim>\<open>velocity = 1.0\<close>, and the \<^verbatim>\<open>if beat_length > 0\<close> that sets one of the two.
\<close>

definition tempo_and_velocity :: "pyfloat \<Rightarrow> error + int \<times> pyfloat" where
  "tempo_and_velocity beat_length =
     (if gt_zero beat_length
      then bind (bind (truediv (Fin 60000) beat_length) py_round) (\<lambda>r. Inr (r, Fin 1))
      else bind (truediv (Fin 100) beat_length) (\<lambda>q. Inr (0, py_abs q)))"

section \<open>Basic facts\<close>

lemma bind_Inl [simp]: "bind (Inl e) f = Inl e"
  by (simp add: bind_def)

lemma bind_Inr [simp]: "bind (Inr v) f = f v"
  by (simp add: bind_def)

lemma bind_eq_Inr: "bind m f = Inr r \<longleftrightarrow> (\<exists>v. m = Inr v \<and> f v = Inr r)"
  by (cases m) simp_all

lemma bind_eq_Inl: "bind m f = Inl e \<longleftrightarrow> m = Inl e \<or> (\<exists>v. m = Inr v \<and> f v = Inl e)"
  by (cases m) simp_all

text \<open>A mask with one bit set tests that bit.\<close>

lemma mask_bit: "(a AND 2 ^ n \<noteq> 0) = bit (a::int) n"
  by (simp add: bit_iff_and_push_bit_not_eq_0 push_bit_eq_mult)

lemma mask_bits:
  "(a AND 1 \<noteq> 0) = bit (a::int) 0"
  "(a AND 2 \<noteq> 0) = bit a 1"
  "(a AND 4 \<noteq> 0) = bit a 2"
  "(a AND 8 \<noteq> 0) = bit a 3"
  "(a AND 128 \<noteq> 0) = bit a 7"
  using mask_bit [of a 0] mask_bit [of a 1] mask_bit [of a 2] mask_bit [of a 3] mask_bit [of a 7]
  by simp_all

lemma split_aux_nonempty: "split_aux sep acc s \<noteq> []"
  by (induction sep acc s rule: split_aux.induct) auto

lemma split_str_nonempty: "split_str sep s \<noteq> []"
  by (simp add: split_str_def split_aux_nonempty)

lemma get_0_split_str: "get (split_str sep s) 0 = Inr (hd (split_str sep s))"
  using split_str_nonempty [of sep s] by (cases "split_str sep s") (simp_all add: get_def)

subsection \<open>The loop over the lines\<close>

lemma process_lines_append:
  "process_lines st (ls @ ms) = bind (process_lines st ls) (\<lambda>st'. process_lines st' ms)"
proof (induction ls arbitrary: st)
  case Nil
  show ?case by simp
next
  case (Cons l ls)
  show ?case
    by (cases "process_line st l") (simp_all add: Cons.IH)
qed

lemma process_lines_abort:
  assumes "process_lines st pre = Inr st'" and "process_line st' line = Inl e"
  shows "process_lines st (pre @ line # post) = Inl e"
  using assms by (simp add: process_lines_append)

section \<open>Hit objects: hit sounds\<close>

lemma hitsounds_of_bits:
  "hitsounds_of hf =
     (if \<not> bit hf 0 \<and> \<not> bit hf 1 \<and> \<not> bit hf 2 \<and> \<not> bit hf 3 then [''normal'']
      else map snd (filter (\<lambda>(i, n). bit hf i)
             [(0, ''normal''), (1, ''whistle''), (2, ''finish''), (3, ''clap'')]))"
  by (simp add: hitsounds_of_def mask_bits)

lemma HitObject_parse_hit_sound:
  "HitObject_parse line = Inr obj \<Longrightarrow>
     \<exists>hf. int_field line 4 = Inr hf \<and> hit_sound obj = hitsounds_of hf"
  by (auto simp: HitObject_parse_def Let_def bind_eq_Inr split: if_splits)

text \<open>
  Claim C7. Every hit object that \<^verbatim>\<open>HitObject.parse\<close> returns has a non-empty \<open>hit_sound\<close>
  list: bits 0 to 3 of the hit-sound field contribute \<^verbatim>\<open>normal\<close>, \<^verbatim>\<open>whistle\<close>,
  \<^verbatim>\<open>finish\<close>, \<^verbatim>\<open>clap\<close>, in that order, and when none of the four bits is set the list
  is exactly \<^verbatim>\<open>['normal']\<close>.
\<close>

theorem hit_sound_nonempty:
  "HitObject_parse line = Inr obj \<Longrightarrow>
     hit_sound obj \<noteq> [] \<and>
     (\<exists>hf. int_field line 4 = Inr hf \<and>
        hit_sound obj =
          (if \<not> bit hf 0 \<and> \<not> bit hf 1 \<and> \<not> bit hf 2 \<and> \<not> bit hf 3 then [''normal'']
           else map snd (filter (\<lambda>(i, n). bit hf i)
                  [(0, ''normal''), (1, ''whistle''), (2, ''finish''), (3, ''clap'')])))"
proof -
  assume "HitObject_parse line = Inr obj"
  then obtain hf where hf: "int_field line 4 = Inr hf" "hit_sound obj = hitsounds_of hf"
    using HitObject_parse_hit_sound by blast
  have "hitsounds_of hf \<noteq> []"
    by (simp add: hitsounds_of_def Let_def)
  with hf show ?thesis
    by (simp add: hitsounds_of_bits)
qed

theorem hit_sound_nonempty_witness:
  "HitObject_parse ''64,192,350,1,10,0:0:0:0:'' =
     Inr \<lparr>type = ''note'', hit_sound = [''whistle'', ''clap''], new_combo = False,
          combo_colors_skipped = 0, x = 64, y = 192, time = 350, end_time = 350\<rparr>
   \<and> [''whistle'', ''clap''] \<noteq> ([] :: string list)"
proof -
  have e: "HitObject_parse ''64,192,350,1,10,0:0:0:0:'' =
     Inr \<lparr>type = ''note'', hit_sound = [''whistle'', ''clap''], new_combo = False,
          combo_colors_skipped = 0, x = 64, y = 192, time = 350, end_time = 350\<rparr>"
    by code_simp
  from hit_sound_nonempty [OF e] show ?thesis
    using e by simp
qed

section \<open>Hit objects: the unknown type\<close>

lemma py_int_not_unknown: "py_int s \<noteq> Inl UnknownHitObjectType"
  by (simp add: py_int_def UnknownHitObjectType_def Let_def split: prod.splits option.splits)

lemma get_not_unknown: "get xs i \<noteq> Inl UnknownHitObjectType"
  by (simp add: get_def UnknownHitObjectType_def)

lemma field_not_unknown: "bind (get xs i) py_int \<noteq> Inl UnknownHitObjectType"
proof (cases "i < length xs")
  case True
  then show ?thesis by (simp add: get_def py_int_not_unknown)
next
  case False
  then show ?thesis by (simp add: get_def UnknownHitObjectType_def)
qed

lemma HitObject_parse_unknown_iff:
  "HitObject_parse line = Inl UnknownHitObjectType \<longleftrightarrow>
     (\<exists>tf hf. int_field line 3 = Inr tf \<and> int_field line 4 = Inr hf \<and> \<not> bit tf 0 \<and> \<not> bit tf 7)"
proof (cases "int_field line 3")
  case (Inl e)
  then show ?thesis
    using field_not_unknown [of "split_str '','' line" 3]
    by (auto simp: HitObject_parse_def Let_def)
next
  case tf: (Inr tf)
  show ?thesis
  proof (cases "int_field line 4")
    case (Inl e)
    then show ?thesis
      using tf field_not_unknown [of "split_str '','' line" 4]
      by (auto simp: HitObject_parse_def Let_def)
  next
    case hf: (Inr hf)
    have other: "bind (int_field line 0) (\<lambda>a. bind (int_field line 1) (\<lambda>b. bind (int_field line 2)
                   (\<lambda>c. bind (F c) (\<lambda>d. Inr (G a b c d))))) \<noteq> Inl UnknownHitObjectType"
      if "\<And>c. F c \<noteq> Inl UnknownHitObjectType" for F :: "int \<Rightarrow> error + int" and G :: "int \<Rightarrow> int \<Rightarrow> int \<Rightarrow> int \<Rightarrow> HitObject"
      using that field_not_unknown [of "split_str '','' line"]
      by (auto simp: bind_eq_Inl)
    have hold5: "bind (bind (get (split_str '','' line) 5) (\<lambda>m5. get (split_str '':'' m5) 0)) py_int
                   \<noteq> Inl UnknownHitObjectType"
      using get_not_unknown py_int_not_unknown by (auto simp: bind_eq_Inl)
    show ?thesis
      using tf hf other [of "\<lambda>c. int_field line 2"] other [of "\<lambda>c. bind (bind (get (split_str '','' line) 5) (\<lambda>m5. get (split_str '':'' m5) 0)) py_int"]
        hold5 field_not_unknown [of "split_str '','' line" 2]
      by (simp add: HitObject_parse_def Let_def mask_bits)
  qed
qed

section \<open>Hit objects: notes and holds\<close>

lemma get_take:
  assumes "take n xs = take n ys" and "i < n" and "n \<le> length ys"
  shows "get xs i = get ys i"
proof -
  have "length (take n xs) = n" using assms by simp
  then have len: "n \<le> length xs" by simp
  have "xs ! i = take n xs ! i" using assms(2) by simp
  also have "\<dots> = ys ! i" using assms(1,2) by simp
  finally show ?thesis using len assms by (simp add: get_def)
qed

lemma HitObject_parse_note:
  assumes "int_field line 3 = Inr tf" and "bit tf 0" and "int_field line 4 = Inr hf"
  shows "HitObject_parse line =
     bind (int_field line 0) (\<lambda>a. bind (int_field line 1) (\<lambda>b. bind (int_field line 2) (\<lambda>c.
       Inr \<lparr>type = ''note'', hit_sound = hitsounds_of hf, new_combo = bit tf 2,
            combo_colors_skipped = (tf AND 28) div 4, x = a, y = b, time = c, end_time = c\<rparr>)))"
proof -
  have "bind (int_field line 2) (\<lambda>c. bind (int_field line 2) (\<lambda>d. Inr (G c d)))
          = bind (int_field line 2) (\<lambda>c. Inr (G c c))" for G :: "int \<Rightarrow> int \<Rightarrow> HitObject"
    by (cases "int_field line 2") simp_all
  then show ?thesis
    using assms by (simp add: HitObject_parse_def Let_def mask_bits)
qed

text \<open>
  Claim C10. A line whose type bitmask has both bit 0 (note) and bit 7 (hold) set, and
  whose first five fields are integers, is parsed as a note: no error is raised,
  \<open>end_time\<close> is \<open>time\<close>, and the sixth field is not read, so that any line with the same
  first five fields gives the same result, with the sixth field changed or missing.
\<close>

theorem note_bit_takes_priority:
  assumes "int_field line 3 = Inr tf" and "bit tf 0" and "bit tf 7"
    and "int_field line 4 = Inr hf"
    and "int_field line 0 = Inr a" and "int_field line 1 = Inr b" and "int_field line 2 = Inr c"
  shows "HitObject_parse line =
           Inr \<lparr>type = ''note'', hit_sound = hitsounds_of hf, new_combo = bit tf 2,
                combo_colors_skipped = (tf AND 28) div 4, x = a, y = b, time = c, end_time = c\<rparr>
         \<and> (\<forall>line'. take 5 (split_str '','' line') = take 5 (split_str '','' line)
               \<longrightarrow> HitObject_parse line' = HitObject_parse line)"
proof
  show p: "HitObject_parse line =
           Inr \<lparr>type = ''note'', hit_sound = hitsounds_of hf, new_combo = bit tf 2,
                combo_colors_skipped = (tf AND 28) div 4, x = a, y = b, time = c, end_time = c\<rparr>"
    using assms by (simp add: HitObject_parse_note [of line tf hf])
  show "\<forall>line'. take 5 (split_str '','' line') = take 5 (split_str '','' line)
               \<longrightarrow> HitObject_parse line' = HitObject_parse line"
  proof (intro allI impI)
    fix line'
    assume t: "take 5 (split_str '','' line') = take 5 (split_str '','' line)"
    have "get (split_str '','' line) 4 \<noteq> Inl IndexError"
      using assms(4) by (auto simp: bind_eq_Inr)
    then have len: "5 \<le> length (split_str '','' line)"
      by (simp add: get_def split: if_splits)
    have g: "get (split_str '','' line') i = get (split_str '','' line) i" if "i < 5" for i
      using get_take [OF t that len] .
    have "int_field line' 3 = Inr tf" "int_field line' 4 = Inr hf"
      "int_field line' 0 = Inr a" "int_field line' 1 = Inr b" "int_field line' 2 = Inr c"
      using assms g by simp_all
    then show "HitObject_parse line' = HitObject_parse line"
      using p assms(2) by (simp add: HitObject_parse_note [of line' tf hf])
  qed
qed

theorem note_bit_takes_priority_witness:
  "HitObject_parse ''192,192,500,129,0,1000:0:0:0:0:'' =
     Inr \<lparr>type = ''note'', hit_sound = [''normal''], new_combo = False,
          combo_colors_skipped = 0, x = 192, y = 192, time = 500, end_time = 500\<rparr>
   \<and> HitObject_parse ''192,192,500,129,0'' = HitObject_parse ''192,192,500,129,0,1000:0:0:0:0:''"
proof -
  let ?l = "''192,192,500,129,0,1000:0:0:0:0:''"
  have f: "int_field ?l 3 = Inr 129" "int_field ?l 4 = Inr 0"
    "int_field ?l 0 = Inr 192" "int_field ?l 1 = Inr 192" "int_field ?l 2 = Inr 500"
    by code_simp+
  have b: "bit (129::int) 0" "bit (129::int) 7" "\<not> bit (129::int) 2" "(129 AND 28) div 4 = (0::int)"
    by simp_all
  have h: "hitsounds_of 0 = [''normal'']" by code_simp
  have t: "take 5 (split_str '','' ''192,192,500,129,0'') = take 5 (split_str '','' ?l)"
    by code_simp
  show ?thesis
    using note_bit_takes_priority [OF f(1) b(1) b(2) f(2) f(3) f(4) f(5)] b h t by simp
qed


lemma HitObject_parse_Inr:
  assumes "HitObject_parse line = Inr obj"
  shows "\<exists>tf hf a b c. int_field line 3 = Inr tf \<and> int_field line 4 = Inr hf
      \<and> int_field line 0 = Inr a \<and> int_field line 1 = Inr b \<and> int_field line 2 = Inr c
      \<and> ((bit tf 0 \<and> obj = \<lparr>type = ''note'', hit_sound = hitsounds_of hf,
              new_combo = bit tf 2, combo_colors_skipped = (tf AND 28) div 4,
              x = a, y = b, time = c, end_time = c\<rparr>)
         \<or> (\<not> bit tf 0 \<and> bit tf 7 \<and>
             (\<exists>m5 d. get (split_str '','' line) 5 = Inr m5
                \<and> py_int (hd (split_str '':'' m5)) = Inr d
                \<and> obj = \<lparr>type = ''hold'', hit_sound = hitsounds_of hf,
                      new_combo = bit tf 2, combo_colors_skipped = (tf AND 28) div 4,
                      x = a, y = b, time = c, end_time = d\<rparr>)))"
proof -
  from assms obtain tf where tf: "int_field line 3 = Inr tf"
    by (cases "int_field line 3") (simp_all add: HitObject_parse_def Let_def)
  from assms tf obtain hf where hf: "int_field line 4 = Inr hf"
    by (cases "int_field line 4") (simp_all add: HitObject_parse_def Let_def)
  have bits: "bit tf 0 \<or> bit tf 7"
    using assms tf hf by (auto simp: HitObject_parse_def Let_def mask_bits split: if_splits)
  from assms tf hf bits obtain a where a: "int_field line 0 = Inr a"
    by (cases "int_field line 0") (auto simp: HitObject_parse_def Let_def mask_bits split: if_splits)
  from assms tf hf bits a obtain b where b: "int_field line 1 = Inr b"
    by (cases "int_field line 1") (auto simp: HitObject_parse_def Let_def mask_bits split: if_splits)
  from assms tf hf bits a b obtain c where c: "int_field line 2 = Inr c"
    by (cases "int_field line 2") (auto simp: HitObject_parse_def Let_def mask_bits split: if_splits)
  show ?thesis
  proof (cases "bit tf 0")
    case True
    then show ?thesis
      using assms tf hf a b c by (auto simp: HitObject_parse_def Let_def mask_bits)
  next
    case False
    with bits have b7: "bit tf 7" by simp
    let ?e = "bind (bind (get (split_str '','' line) 5) (\<lambda>m5. get (split_str '':'' m5) 0)) py_int"
    from assms tf hf a b c False b7 obtain d where d: "?e = Inr d"
      by (cases ?e) (auto simp: HitObject_parse_def Let_def mask_bits)
    then obtain m5 where m5: "get (split_str '','' line) 5 = Inr m5"
      "py_int (hd (split_str '':'' m5)) = Inr d"
      by (auto simp: bind_eq_Inr get_0_split_str)
    show ?thesis
      using assms tf hf a b c False b7 d m5
      by (auto simp: HitObject_parse_def Let_def mask_bits)
  qed
qed

text \<open>
  Claim C1, as amended. For every line that \<^verbatim>\<open>HitObject.parse\<close> accepts, the result is
  a note exactly when bit 0 of the type bitmask is set, and a hold exactly when bit 0 is
  clear and bit 7 is set. The \<open>end_time\<close> of a note is its \<open>time\<close>. The \<open>end_time\<close> of a
  hold is the integer in front of the first colon of the sixth field, whatever its
  order with \<open>time\<close>: the parser does not compare the two.
\<close>

theorem end_time_of_hit_object:
  assumes "HitObject_parse line = Inr obj"
  shows "(\<exists>tf. int_field line 3 = Inr tf
            \<and> (type obj = ''note'' \<longleftrightarrow> bit tf 0)
            \<and> (type obj = ''hold'' \<longleftrightarrow> \<not> bit tf 0 \<and> bit tf 7))
       \<and> (type obj = ''note'' \<longrightarrow> end_time obj = time obj)
       \<and> (type obj = ''hold'' \<longrightarrow>
            (\<exists>m5. get (split_str '','' line) 5 = Inr m5
               \<and> py_int (hd (split_str '':'' m5)) = Inr (end_time obj)))"
  using HitObject_parse_Inr [OF assms] by auto

theorem end_time_of_hit_object_witness:
  "HitObject_parse ''192,192,500,128,0,1000:0:0:0:0:'' =
     Inr \<lparr>type = ''hold'', hit_sound = [''normal''], new_combo = False,
          combo_colors_skipped = 0, x = 192, y = 192, time = 500, end_time = 1000\<rparr>
   \<and> get (split_str '','' ''192,192,500,128,0,1000:0:0:0:0:'') 5 = Inr ''1000:0:0:0:0:''
   \<and> py_int (hd (split_str '':'' ''1000:0:0:0:0:'')) = Inr 1000"
proof -
  have e: "HitObject_parse ''192,192,500,128,0,1000:0:0:0:0:'' =
     Inr \<lparr>type = ''hold'', hit_sound = [''normal''], new_combo = False,
          combo_colors_skipped = 0, x = 192, y = 192, time = 500, end_time = 1000\<rparr>"
    by code_simp
  have g: "get (split_str '','' ''192,192,500,128,0,1000:0:0:0:0:'') 5 = Inr ''1000:0:0:0:0:''"
    by code_simp
  from end_time_of_hit_object [OF e] show ?thesis
    using e g by simp
qed

text \<open>
  The claim as stated, \<open>end_time \<ge> time\<close> for every hold, fails: a hold line whose
  sixth field starts with \<^verbatim>\<open>100\<close> and whose time is \<^verbatim>\<open>500\<close> is accepted, with
  \<open>end_time = 100\<close>.
\<close>

theorem hold_end_time_counterexample:
  "HitObject_parse ''192,192,500,128,0,100:0:0:0:0:'' =
     Inr \<lparr>type = ''hold'', hit_sound = [''normal''], new_combo = False,
          combo_colors_skipped = 0, x = 192, y = 192, time = 500, end_time = 100\<rparr>"
  by code_simp

section \<open>Building the beatmap\<close>

lemma add_hit_object_Inr:
  assumes "add_hit_object self line = Inr self'"
  shows "\<exists>obj. HitObject_parse line = Inr obj
      \<and> hit_objects self' = hit_objects self @ [obj]
      \<and> nb_notes self' = (if type obj = ''note'' then nb_notes self + 1 else nb_notes self)
      \<and> nb_holds self' = (if type obj = ''hold'' then nb_holds self + 1 else nb_holds self)
      \<and> key_positions self' = (if x obj \<notin> set (key_positions self)
                                 then key_positions self @ [x obj] else key_positions self)
      \<and> timing_points self' = timing_points self
      \<and> min_bpm self' = min_bpm self \<and> max_bpm self' = max_bpm self"
  using assms by (auto simp: add_hit_object_def Let_def bind_eq_Inr)

lemma add_timing_point_Inr:
  assumes "add_timing_point self line = Inr self'"
  shows "\<exists>tp. TimingPoint_parse line = Inr tp
      \<and> timing_points self' = timing_points self @ [tp]
      \<and> min_bpm self' = (if min_bpm self = 0 then (case bpm tp of Some b \<Rightarrow> b | None \<Rightarrow> 0)
                          else case bpm tp of Some b \<Rightarrow> (if b < min_bpm self then b else min_bpm self)
                               | None \<Rightarrow> min_bpm self)
      \<and> max_bpm self' = (if max_bpm self = 0 then (case bpm tp of Some b \<Rightarrow> b | None \<Rightarrow> 0)
                          else case bpm tp of Some b \<Rightarrow> (if max_bpm self < b then b else max_bpm self)
                               | None \<Rightarrow> max_bpm self)
      \<and> hit_objects self' = hit_objects self
      \<and> nb_notes self' = nb_notes self \<and> nb_holds self' = nb_holds self
      \<and> key_positions self' = key_positions self"
proof -
  from assms obtain tp where tp: "TimingPoint_parse line = Inr tp"
    by (cases "TimingPoint_parse line") (simp_all add: add_timing_point_def)
  show ?thesis
  proof (cases "bpm tp")
    case None
    show ?thesis
      using assms [symmetric] tp None
      by (cases "min_bpm self = 0"; cases "max_bpm self = 0";
          simp add: add_timing_point_def Let_def)
  next
    case (Some b)
    show ?thesis
      using assms [symmetric] tp Some
      by (cases "min_bpm self = 0"; cases "max_bpm self = 0";
          cases "b < min_bpm self"; cases "max_bpm self < b";
          simp add: add_timing_point_def Let_def)
  qed
qed

lemma process_line_cases:
  assumes "process_line (bm, sec) line = Inr (bm', sec')"
  shows "(hit_objects bm' = hit_objects bm \<and> nb_notes bm' = nb_notes bm
          \<and> nb_holds bm' = nb_holds bm \<and> key_positions bm' = key_positions bm
          \<and> timing_points bm' = timing_points bm
          \<and> min_bpm bm' = min_bpm bm \<and> max_bpm bm' = max_bpm bm)
       \<or> add_timing_point bm line = Inr bm'
       \<or> add_hit_object bm line = Inr bm'"
proof (cases "section_reg_match line")
  case (Some name)
  then show ?thesis using assms by (simp add: process_line_def)
next
  case None
  consider "sec = ''General''" | "sec = ''Metadata''" | "sec = ''Difficulty''"
    | "sec = ''TimingPoints''" | "sec = ''HitObjects''"
    | "sec \<noteq> ''General''" "sec \<noteq> ''Metadata''" "sec \<noteq> ''Difficulty''"
      "sec \<noteq> ''TimingPoints''" "sec \<noteq> ''HitObjects''"
    by blast
  then show ?thesis
  proof cases
    case 1
    then show ?thesis using assms None
      by (auto simp: process_line_def Let_def bind_eq_Inr split: if_splits)
  next
    case 2
    then show ?thesis using assms None
      by (auto simp: process_line_def Let_def bind_eq_Inr split: if_splits)
  next
    case 3
    then show ?thesis using assms None
      by (auto simp: process_line_def Let_def bind_eq_Inr split: if_splits)
  next
    case 4
    then show ?thesis using assms None
      by (auto simp: process_line_def bind_eq_Inr)
  next
    case 5
    then show ?thesis using assms None
      by (auto simp: process_line_def bind_eq_Inr)
  next
    case 6
    then show ?thesis using assms None
      by (simp add: process_line_def)
  qed
qed

lemma process_lines_invariant:
  assumes step: "\<And>bm sec line bm' sec'.
      P bm \<Longrightarrow> process_line (bm, sec) line = Inr (bm', sec') \<Longrightarrow> P bm'"
    and "P (fst st)" and "process_lines st ls = Inr st'"
  shows "P (fst st')"
  using assms(2,3)
proof (induction ls arbitrary: st)
  case Nil
  then show ?case by simp
next
  case (Cons l ls)
  from Cons.prems(2) obtain st1 where s1: "process_line st l = Inr st1"
    and rest: "process_lines st1 ls = Inr st'"
    by (auto simp: bind_eq_Inr)
  have "P (fst st1)"
    using step [of "fst st" "snd st" l "fst st1" "snd st1"] Cons.prems(1) s1 by simp
  then show ?case using Cons.IH rest by blast
qed

lemma parse_file_sync_Inr:
  assumes "parse_file_sync fs path = Inr bm"
  obtains contents st where
    "process_lines (Beatmap_init, []) (lines_of contents) = Inr st"
    and "bm = (fst st)\<lparr>key_positions := sort (key_positions (fst st))\<rparr>"
  using assms
  by (auto simp: parse_file_sync_def parse_contents_def bind_eq_Inr split: option.splits)

lemma parse_file_sync_invariant:
  assumes step: "\<And>bm sec line bm' sec'.
      P bm \<Longrightarrow> process_line (bm, sec) line = Inr (bm', sec') \<Longrightarrow> P bm'"
    and init: "P Beatmap_init"
    and "parse_file_sync fs path = Inr bm"
  shows "\<exists>bm0. P bm0 \<and> bm = bm0\<lparr>key_positions := sort (key_positions bm0)\<rparr>"
proof -
  from assms(3) obtain contents st where
    "process_lines (Beatmap_init, []) (lines_of contents) = Inr st"
    and bm: "bm = (fst st)\<lparr>key_positions := sort (key_positions (fst st))\<rparr>"
    by (rule parse_file_sync_Inr)
  then have "P (fst st)"
    using process_lines_invariant [of P "(Beatmap_init, [])" "lines_of contents" st] step init
    by simp
  then show ?thesis using bm by blast
qed

lemma HitObject_parse_type:
  "HitObject_parse line = Inr obj \<Longrightarrow> type obj = ''note'' \<or> type obj = ''hold''"
  using HitObject_parse_Inr [of line obj] by auto

lemma add_hit_object_counts:
  assumes "add_hit_object self line = Inr self'"
  shows "\<exists>obj. HitObject_parse line = Inr obj \<and> hit_objects self' = hit_objects self @ [obj]
      \<and> ((nb_notes self' = nb_notes self + 1 \<and> nb_holds self' = nb_holds self)
         \<or> (nb_notes self' = nb_notes self \<and> nb_holds self' = nb_holds self + 1))"
proof -
  from add_hit_object_Inr [OF assms] obtain obj where o: "HitObject_parse line = Inr obj"
      "hit_objects self' = hit_objects self @ [obj]"
      "nb_notes self' = (if type obj = ''note'' then nb_notes self + 1 else nb_notes self)"
      "nb_holds self' = (if type obj = ''hold'' then nb_holds self + 1 else nb_holds self)"
    by blast
  from HitObject_parse_type [OF o(1)] o show ?thesis by auto
qed

lemma counts_agree_step:
  assumes "counts_agree bm" and "process_line (bm, sec) line = Inr (bm', sec')"
  shows "counts_agree bm'"
  using process_line_cases [OF assms(2)]
proof (elim disjE)
  assume "add_hit_object bm line = Inr bm'"
  from add_hit_object_counts [OF this] assms(1) show ?thesis
    by (auto simp: counts_agree_def)
next
  assume "add_timing_point bm line = Inr bm'"
  from add_timing_point_Inr [OF this] assms(1) show ?thesis
    by (auto simp: counts_agree_def)
qed (use assms(1) in \<open>simp add: counts_agree_def\<close>)

section \<open>Reading the file\<close>

text \<open>
  The text that \<^verbatim>\<open>f.read()\<close> returns holds no carriage return, so \<^verbatim>\<open>split('\r\n')\<close> never
  splits it: the loop sees the whole file as one line, no data line is ever read under a
  section, and every file that exists is parsed to the default beatmap.
\<close>

lemma universal_newlines_no_CR: "CHR 0x0D \<notin> set (universal_newlines s)"
  by (induction s rule: universal_newlines.induct) auto

lemma split_aux_no_sep:
  assumes "sep \<noteq> []" and "hd sep \<notin> set s"
  shows "split_aux sep acc s = [rev acc @ s]"
  using assms(2)
proof (induction s arbitrary: acc)
  case Nil
  show ?case by simp
next
  case (Cons c cs)
  have "take (length sep) (c # cs) \<noteq> sep"
  proof
    assume "take (length sep) (c # cs) = sep"
    then have "hd sep = c" using assms(1) by (cases sep) auto
    then show False using Cons.prems by simp
  qed
  moreover have "split_aux sep (c # acc) cs = [rev (c # acc) @ cs]"
    using Cons.IH [of "c # acc"] Cons.prems by simp
  ultimately show ?case by simp
qed

lemma split_CRLF_no_CR:
  assumes "CHR 0x0D \<notin> set t"
  shows "split_str CRLF t = [t]"
  using split_aux_no_sep [of CRLF t "[]"] assms by (simp add: split_str_def CRLF_def)

lemma process_line_no_section:
  "\<exists>sec. process_line (bm, []) line = Inr (bm, sec)"
  by (cases "section_reg_match line") (simp_all add: process_line_def)

lemma sort_init: "Beatmap_init\<lparr>key_positions := sort (key_positions Beatmap_init)\<rparr> = Beatmap_init"
  by (simp add: Beatmap_init_def)

lemma parse_contents_no_CR:
  assumes "CHR 0x0D \<notin> set t"
  shows "parse_contents t = Inr Beatmap_init"
proof -
  have "lines_of t = [] \<or> lines_of t = [t]"
    using split_CRLF_no_CR [OF assms] by (simp add: lines_of_def)
  then show ?thesis
  proof
    assume "lines_of t = []"
    then show ?thesis by (simp add: parse_contents_def sort_init)
  next
    assume l: "lines_of t = [t]"
    obtain sec where "process_line (Beatmap_init, []) t = Inr (Beatmap_init, sec)"
      using process_line_no_section by blast
    then show ?thesis using l by (simp add: parse_contents_def sort_init)
  qed
qed

lemma parse_file_sync_default:
  assumes "fs path = Some stored"
  shows "parse_file_sync fs path = Inr Beatmap_init"
  using assms parse_contents_no_CR [OF universal_newlines_no_CR]
  by (simp add: parse_file_sync_def)

lemma general_mode_line_raises:
  assumes "section_reg_match line = None"
    and "(split_str '': '' line @ [[]]) ! 0 = ''Mode''"
    and "(split_str '': '' line @ [[]]) ! 1 \<noteq> ''3''"
  shows "process_line (bm, ''General'') line = Inl InvalidGameMode"
  using assms by (simp add: process_line_def Let_def)

lemma hit_object_line_raises:
  assumes "section_reg_match line = None" and "HitObject_parse line = Inl e"
  shows "process_line (bm, ''HitObjects'') line = Inl e"
  using assms by (simp add: process_line_def add_hit_object_def)

text \<open>
  Claim C5 says that a line of the section \<^verbatim>\<open>General\<close> with the key \<^verbatim>\<open>Mode\<close> and a value
  other than \<^verbatim>\<open>3\<close> makes the whole parse fail with the invalid-game-mode error. The loop
  does raise it when it reads such a line under that section, but for a file with the
  lines \<^verbatim>\<open>[General]\<close> and \<^verbatim>\<open>Mode: 1\<close>, each ended by carriage return and line feed,
  \<^verbatim>\<open>parse_file_sync\<close> returns the default beatmap and raises nothing.
\<close>

theorem mode_not_checked:
  "parse_file_sync [''map.osu'' \<mapsto> ''[General]'' @ CRLF @ ''Mode: 1'' @ CRLF] ''map.osu''
     = Inr Beatmap_init
   \<and> process_line (Beatmap_init, ''General'') ''Mode: 1'' = Inl InvalidGameMode"
proof -
  have "section_reg_match ''Mode: 1'' = None"
    "(split_str '': '' ''Mode: 1'' @ [[]]) ! 0 = ''Mode''"
    "(split_str '': '' ''Mode: 1'' @ [[]]) ! 1 \<noteq> ''3''"
    by code_simp+
  then have "process_line (Beatmap_init, ''General'') ''Mode: 1'' = Inl InvalidGameMode"
    by (rule general_mode_line_raises)
  moreover have "parse_file_sync [''map.osu'' \<mapsto> ''[General]'' @ CRLF @ ''Mode: 1'' @ CRLF]
      ''map.osu'' = Inr Beatmap_init"
    by (rule parse_file_sync_default) simp
  ultimately show ?thesis by simp
qed

text \<open>
  Claim C6 says that \<^verbatim>\<open>HitObject.parse\<close> raises the unknown-hit-object-type error exactly
  when the type bitmask has neither bit 0 nor bit 7 set, and that the error aborts the
  whole parse. The first half holds for every line whose fourth and fifth fields are
  integers (\<open>HitObject_parse_unknown_iff\<close>), and the loop passes the error on when it
  reads such a line under \<^verbatim>\<open>HitObjects\<close>. But for a file with the lines \<^verbatim>\<open>[HitObjects]\<close>
  and \<^verbatim>\<open>64,192,350,2,0,0:0:0:0:\<close>, each ended by carriage return and line feed,
  \<^verbatim>\<open>parse_file_sync\<close> returns the default beatmap and raises nothing.
\<close>

theorem unknown_hit_object_type_not_reached:
  "parse_file_sync
      [''map.osu'' \<mapsto> ''[HitObjects]'' @ CRLF @ ''64,192,350,2,0,0:0:0:0:'' @ CRLF] ''map.osu''
     = Inr Beatmap_init
   \<and> HitObject_parse ''64,192,350,2,0,0:0:0:0:'' = Inl UnknownHitObjectType
   \<and> process_line (Beatmap_init, ''HitObjects'') ''64,192,350,2,0,0:0:0:0:''
       = Inl UnknownHitObjectType"
proof -
  let ?l = "''64,192,350,2,0,0:0:0:0:''"
  have f: "int_field ?l 3 = Inr 2" "int_field ?l 4 = Inr 0" by code_simp+
  have b: "\<not> bit (2::int) 0 \<and> \<not> bit (2::int) 7" by simp
  have u: "HitObject_parse ?l = Inl UnknownHitObjectType"
    using HitObject_parse_unknown_iff [of ?l] f b by blast
  have n: "section_reg_match ?l = None" by code_simp
  have "process_line (Beatmap_init, ''HitObjects'') ?l = Inl UnknownHitObjectType"
    using n u by (rule hit_object_line_raises)
  moreover have "parse_file_sync
      [''map.osu'' \<mapsto> ''[HitObjects]'' @ CRLF @ ?l @ CRLF] ''map.osu'' = Inr Beatmap_init"
    by (rule parse_file_sync_default) simp
  ultimately show ?thesis using u by simp
qed

section \<open>The counters and the key positions\<close>

lemma add_timing_point_keeps:
  assumes "add_timing_point self line = Inr self'"
  shows "hit_objects self' = hit_objects self" and "key_positions self' = key_positions self"
    and "nb_notes self' = nb_notes self" and "nb_holds self' = nb_holds self"
  using add_timing_point_Inr [OF assms] by blast+


lemma counts_agree_init: "counts_agree Beatmap_init"
  by (simp add: counts_agree_def Beatmap_init_def)

lemma counts_agree_built: "built bm \<Longrightarrow> counts_agree bm"
proof (induction rule: built.induct)
  case init
  show ?case by (rule counts_agree_init)
next
  case (timing_point bm line bm')
  from add_timing_point_keeps [OF timing_point.hyps(2)] timing_point.IH show ?case
    by (simp add: counts_agree_def)
next
  case (hit_object bm line bm')
  from add_hit_object_counts [OF hit_object.hyps(2)] hit_object.IH show ?case
    by (auto simp: counts_agree_def)
qed

text \<open>
  Claim C8. For every beatmap that \<^verbatim>\<open>parse_file_sync\<close> returns, and for every beatmap built
  by calls of the two \<^verbatim>\<open>add\<close> methods, \<open>nb_notes + nb_holds\<close> is the length of
  \<open>hit_objects\<close>; and every call of \<^verbatim>\<open>add_hit_object\<close> that returns appends exactly one
  object and increments exactly one of the two counters by one.
\<close>

theorem note_and_hold_counts:
  "(parse_file_sync fs path = Inr bm \<longrightarrow>
      nb_notes bm + nb_holds bm = int (length (hit_objects bm)))
   \<and> (built bm' \<longrightarrow> nb_notes bm' + nb_holds bm' = int (length (hit_objects bm')))
   \<and> (add_hit_object self line = Inr self' \<longrightarrow>
        (\<exists>obj. HitObject_parse line = Inr obj \<and> hit_objects self' = hit_objects self @ [obj]
           \<and> ((nb_notes self' = nb_notes self + 1 \<and> nb_holds self' = nb_holds self)
              \<or> (nb_notes self' = nb_notes self \<and> nb_holds self' = nb_holds self + 1))))"
proof (intro conjI impI)
  assume "parse_file_sync fs path = Inr bm"
  with counts_agree_step counts_agree_init
  have "\<exists>bm0. counts_agree bm0 \<and> bm = bm0\<lparr>key_positions := sort (key_positions bm0)\<rparr>"
    by (rule parse_file_sync_invariant [of counts_agree])
  then show "nb_notes bm + nb_holds bm = int (length (hit_objects bm))"
    by (auto simp: counts_agree_def)
next
  assume "built bm'"
  then show "nb_notes bm' + nb_holds bm' = int (length (hit_objects bm'))"
    using counts_agree_built by (simp add: counts_agree_def)
next
  assume "add_hit_object self line = Inr self'"
  then show "\<exists>obj. HitObject_parse line = Inr obj \<and> hit_objects self' = hit_objects self @ [obj]
           \<and> ((nb_notes self' = nb_notes self + 1 \<and> nb_holds self' = nb_holds self)
              \<or> (nb_notes self' = nb_notes self \<and> nb_holds self' = nb_holds self + 1))"
    by (rule add_hit_object_counts)
qed



subsection \<open>The example\<close>

lemma example_file_parse:
  "parse_file_sync [''map.osu'' \<mapsto> example_file] ''map.osu'' = Inr Beatmap_init"
  by (rule parse_file_sync_default) simp

lemma example_steps:
  "add_timing_point Beatmap_init ''320,789.473684210526,4,2,1,60,1,0'' =
     Inr (Beatmap_init\<lparr>min_bpm := 76, max_bpm := 76, timing_points := [tp_320]\<rparr>)"
  "add_timing_point (Beatmap_init\<lparr>min_bpm := 76, max_bpm := 76, timing_points := [tp_320]\<rparr>)
       ''1000,-50,4,2,0,40,0,0'' =
     Inr (Beatmap_init\<lparr>min_bpm := 76, max_bpm := 76, timing_points := [tp_320, tp_1000]\<rparr>)"
  "add_hit_object (Beatmap_init\<lparr>min_bpm := 76, max_bpm := 76,
          timing_points := [tp_320, tp_1000]\<rparr>) ''192,192,500,128,0,1000:0:0:0:0:'' =
     Inr (Beatmap_init\<lparr>key_positions := [192], min_bpm := 76, max_bpm := 76, nb_holds := 1,
          timing_points := [tp_320, tp_1000], hit_objects := [hold_500]\<rparr>)"
  "add_hit_object (Beatmap_init\<lparr>key_positions := [192], min_bpm := 76, max_bpm := 76,
          nb_holds := 1, timing_points := [tp_320, tp_1000], hit_objects := [hold_500]\<rparr>)
       ''64,192,350,1,0,0:0:0:0:'' =
     Inr example_before_last"
  "add_hit_object example_before_last ''64,192,750,1,2,0:0:0:0:'' =
     Inr example_beatmap"
  by code_simp+

lemma built_example: "built example_beatmap"
proof -
  note b1 = built.timing_point [OF built.init example_steps(1)]
  note b2 = built.timing_point [OF b1 example_steps(2)]
  note b3 = built.hit_object [OF b2 example_steps(3)]
  note b4 = built.hit_object [OF b3 example_steps(4)]
  show ?thesis by (rule built.hit_object [OF b4 example_steps(5)])
qed

theorem note_and_hold_counts_witness:
  "parse_file_sync [''map.osu'' \<mapsto> example_file] ''map.osu'' = Inr Beatmap_init
   \<and> nb_notes Beatmap_init + nb_holds Beatmap_init = int (length (hit_objects Beatmap_init))
   \<and> built example_beatmap
   \<and> nb_notes example_beatmap + nb_holds example_beatmap
       = int (length (hit_objects example_beatmap))
   \<and> add_hit_object example_before_last ''64,192,750,1,2,0:0:0:0:'' =
       Inr example_beatmap
   \<and> (\<exists>obj. HitObject_parse ''64,192,750,1,2,0:0:0:0:'' = Inr obj)"
proof -
  note w = note_and_hold_counts [of "[''map.osu'' \<mapsto> example_file]" "''map.osu''" Beatmap_init
      example_beatmap
      "example_before_last" "''64,192,750,1,2,0:0:0:0:''" example_beatmap]
  from w have 1: "nb_notes Beatmap_init + nb_holds Beatmap_init
      = int (length (hit_objects Beatmap_init))"
    using example_file_parse by (elim conjE) (rule mp)
  from w have 2: "nb_notes example_beatmap + nb_holds example_beatmap
       = int (length (hit_objects example_beatmap))"
    using built_example by (elim conjE) (rule mp)
  from w have "\<exists>obj. HitObject_parse ''64,192,750,1,2,0:0:0:0:'' = Inr obj \<and>
      hit_objects example_beatmap = hit_objects example_before_last @ [obj] \<and>
      ((nb_notes example_beatmap = nb_notes example_before_last + 1 \<and>
        nb_holds example_beatmap = nb_holds example_before_last) \<or>
       (nb_notes example_beatmap = nb_notes example_before_last \<and>
        nb_holds example_beatmap = nb_holds example_before_last + 1))"
    using example_steps(5) by (elim conjE) (rule mp)
  then have 3: "\<exists>obj. HitObject_parse ''64,192,750,1,2,0:0:0:0:'' = Inr obj"
    by (elim exE conjE) (rule exI)
  show ?thesis
    by (intro conjI example_file_parse 1 built_example 2 example_steps(5) 3)
qed

subsection \<open>Key positions\<close>








section \<open>The timing point at a time\<close>

lemma scan_back_filter:
  "n \<le> length tps \<Longrightarrow>
     scan_back tps n t =
       (if upto_time t (take n tps) = [] then None else Some (last (upto_time t (take n tps))))"
proof (induction n)
  case 0
  show ?case by simp
next
  case (Suc n)
  then have n: "n < length tps" by simp
  then have t: "take (Suc n) tps = take n tps @ [tps ! n]"
    by (simp add: take_Suc_conv_app_nth)
  show ?case
    using Suc.IH n by (simp add: t)
qed

lemma get_timing_point_filter:
  assumes "timing_points self \<noteq> []"
  shows "get_timing_point self t =
     Inr (if upto_time t (timing_points self) = [] then hd (timing_points self)
          else last (upto_time t (timing_points self)))"
proof -
  have "get (timing_points self) 0 = Inr (hd (timing_points self))"
    using assms by (cases "timing_points self") (simp_all add: get_def)
  then show ?thesis
    using scan_back_filter [of "length (timing_points self)" "timing_points self" t]
    by (simp add: get_timing_point_def)
qed

lemma last_filter_last:
  assumes "xs \<noteq> []" and "P (last xs)"
  shows "last (filter P xs) = last xs"
proof -
  from assms(1) obtain ys z where xs: "xs = ys @ [z]"
    by (cases xs rule: rev_cases) auto
  then show ?thesis using assms(2) by simp
qed

lemma sorted_before_first:
  assumes "sorted (map TimingPoint.time tps)" and "tps \<noteq> []"
    and "t < TimingPoint.time (hd tps)"
  shows "upto_time t tps = []"
proof -
  obtain p ps where tps: "tps = p # ps" using assms(2) by (cases tps) auto
  have "\<forall>q \<in> set tps. TimingPoint.time p \<le> TimingPoint.time q"
    using assms(1) tps by auto
  then have "\<forall>q \<in> set tps. \<not> TimingPoint.time q \<le> t"
    using assms(3) tps by fastforce
  then show ?thesis by (simp add: filter_empty_conv)
qed

lemma sorted_last_at_time:
  assumes "sorted (map TimingPoint.time tps)" and "\<exists>p \<in> set tps. TimingPoint.time p = t"
  shows "last (upto_time t tps) = last (filter (\<lambda>p. TimingPoint.time p = t) tps)"
  using assms
proof (induction tps rule: rev_induct)
  case Nil
  then show ?case by simp
next
  case (snoc z ys)
  from snoc.prems(1) have s: "sorted (map TimingPoint.time ys)"
    and le: "\<forall>q \<in> set ys. TimingPoint.time q \<le> TimingPoint.time z"
    by (simp_all add: sorted_append)
  consider "TimingPoint.time z = t" | "TimingPoint.time z < t" | "t < TimingPoint.time z"
    by linarith
  then show ?case
  proof cases
    case 1
    then show ?thesis by simp
  next
    case 2
    with le have "\<forall>q \<in> set ys. TimingPoint.time q \<noteq> t" by fastforce
    with 2 snoc.prems(2) show ?thesis by auto
  next
    case 3
    with snoc.prems(2) have "\<exists>p \<in> set ys. TimingPoint.time p = t" by auto
    with snoc.IH s 3 show ?thesis by simp
  qed
qed

lemma filter_distinct_time:
  assumes "distinct (map f xs)" and "p \<in> set xs"
  shows "filter (\<lambda>q. f q = f p) xs = [p]"
  using assms
proof (induction xs)
  case Nil
  then show ?case by simp
next
  case (Cons a xs)
  show ?case
  proof (cases "a = p")
    case True
    then have "f p \<notin> f ` set xs" using Cons.prems(1) by simp
    then have "\<forall>q \<in> set xs. f q \<noteq> f p" by (metis imageI)
    then have "filter (\<lambda>q. f q = f p) xs = []" by (simp add: filter_empty_conv)
    then show ?thesis using True by simp
  next
    case False
    then have p: "p \<in> set xs" using Cons.prems(2) by simp
    have "f a \<notin> f ` set xs" using Cons.prems(1) by simp
    then have "f a \<noteq> f p" using p by (metis imageI)
    then show ?thesis using Cons.IH Cons.prems(1) p by simp
  qed
qed

text \<open>
  Claim C4, as amended. For every beatmap with a non-empty \<open>timing_points\<close> list and every
  time \<open>t\<close>, \<^verbatim>\<open>get_timing_point(t)\<close> returns the last element of the list whose time is at
  most \<open>t\<close>, and the first element when there is none. For \<open>t\<close> at or after the time of the
  last point it returns the last point. When the list is in ascending order of time: for
  \<open>t\<close> before the time of the first point it returns the first point, and for \<open>t\<close> equal
  to the time of a point it returns the last point of the list with that time, which is
  that point itself when no two points share a time.
\<close>

theorem get_timing_point_result:
  assumes "timing_points self \<noteq> []"
  shows "get_timing_point self t =
           Inr (if upto_time t (timing_points self) = [] then hd (timing_points self)
                else last (upto_time t (timing_points self)))
       \<and> (TimingPoint.time (last (timing_points self)) \<le> t \<longrightarrow>
             get_timing_point self t = Inr (last (timing_points self)))
       \<and> (sorted (map TimingPoint.time (timing_points self))
            \<and> t < TimingPoint.time (hd (timing_points self)) \<longrightarrow>
             get_timing_point self t = Inr (hd (timing_points self)))
       \<and> (sorted (map TimingPoint.time (timing_points self))
            \<and> (\<exists>p \<in> set (timing_points self). TimingPoint.time p = t) \<longrightarrow>
             get_timing_point self t =
               Inr (last (filter (\<lambda>p. TimingPoint.time p = t) (timing_points self))))
       \<and> (sorted (map TimingPoint.time (timing_points self))
            \<and> distinct (map TimingPoint.time (timing_points self))
            \<and> p \<in> set (timing_points self) \<longrightarrow>
             get_timing_point self (TimingPoint.time p) = Inr p)"
proof (intro conjI impI)
  let ?tps = "timing_points self"
  note g = get_timing_point_filter [OF assms]
  show "get_timing_point self t =
           Inr (if upto_time t ?tps = [] then hd ?tps else last (upto_time t ?tps))"
    by (rule g)
  show "get_timing_point self t = Inr (last ?tps)" if "TimingPoint.time (last ?tps) \<le> t"
  proof -
    have "last (upto_time t ?tps) = last ?tps"
      using assms that by (rule last_filter_last)
    moreover have "upto_time t ?tps \<noteq> []"
      using assms that by (auto simp: filter_empty_conv intro: last_in_set)
    ultimately show ?thesis by (simp add: g)
  qed
  show "get_timing_point self t = Inr (hd ?tps)"
    if "sorted (map TimingPoint.time ?tps) \<and> t < TimingPoint.time (hd ?tps)"
    using sorted_before_first [of ?tps t] assms that by (simp add: g)
  show "get_timing_point self t = Inr (last (filter (\<lambda>p. TimingPoint.time p = t) ?tps))"
    if h: "sorted (map TimingPoint.time ?tps) \<and> (\<exists>p \<in> set ?tps. TimingPoint.time p = t)"
  proof -
    from h have "upto_time t ?tps \<noteq> []" by (auto simp: filter_empty_conv)
    then show ?thesis using sorted_last_at_time [of ?tps t] h by (simp add: g)
  qed
  show "get_timing_point self (TimingPoint.time p) = Inr p"
    if h: "sorted (map TimingPoint.time ?tps) \<and> distinct (map TimingPoint.time ?tps)
           \<and> p \<in> set ?tps"
  proof -
    from h have ne: "upto_time (TimingPoint.time p) ?tps \<noteq> []"
      by (auto simp: filter_empty_conv)
    have "last (upto_time (TimingPoint.time p) ?tps)
            = last (filter (\<lambda>q. TimingPoint.time q = TimingPoint.time p) ?tps)"
      using sorted_last_at_time [of ?tps "TimingPoint.time p"] h by blast
    also have "\<dots> = p"
      using filter_distinct_time [of TimingPoint.time ?tps p] h by simp
    finally show ?thesis using ne by (simp add: get_timing_point_filter [OF assms])
  qed
qed

theorem get_timing_point_result_witness:
  "get_timing_point example_beatmap 2000 = Inr tp_1000
   \<and> get_timing_point example_beatmap 0 = Inr tp_320
   \<and> get_timing_point example_beatmap 1000 = Inr tp_1000
   \<and> get_timing_point example_beatmap 999 = Inr tp_320"
proof -
  have tps: "timing_points example_beatmap = [tp_320, tp_1000]"
    by (simp add: example_beatmap_def)
  have times: "TimingPoint.time tp_320 = 320" "TimingPoint.time tp_1000 = 1000"
    by (simp_all add: tp_320_def tp_1000_def)
  have ne: "timing_points example_beatmap \<noteq> []" by (simp add: tps)
  have 1: "get_timing_point example_beatmap 2000 = Inr tp_1000"
    using get_timing_point_result [OF ne, of 2000 tp_1000] by (simp add: tps times)
  have 2: "get_timing_point example_beatmap 0 = Inr tp_320"
    using get_timing_point_result [OF ne, of 0 tp_320] by (simp add: tps times)
  have 3: "get_timing_point example_beatmap 1000 = Inr tp_1000"
    using get_timing_point_result [OF ne, of 1000 tp_1000] by (simp add: tps times)
  have 4: "get_timing_point example_beatmap 999 = Inr tp_320"
    using get_timing_point_result [OF ne, of 999 tp_320] by (simp add: tps times)
  from 1 2 3 4 show ?thesis by simp
qed

lemma unsorted_steps:
  "add_timing_point Beatmap_init ''1000,-50,4,2,0,40,0,0'' =
     Inr (Beatmap_init\<lparr>timing_points := [tp_1000]\<rparr>)"
  "add_timing_point (Beatmap_init\<lparr>timing_points := [tp_1000]\<rparr>)
       ''320,789.473684210526,4,2,1,60,1,0'' = Inr unsorted_beatmap"
  by code_simp+

lemma built_unsorted: "built unsorted_beatmap"
  by (rule built.timing_point [OF built.timing_point [OF built.init unsorted_steps(1)]
        unsorted_steps(2)])

text \<open>
  The claim as stated, for every beatmap, fails where the list is not in ascending order:
  with the timing point of time 1000 added before the one of time 320, the query at 500,
  before the time of the first point, returns the second point, and the query at 1000,
  the time of the first point, returns the second point too.
\<close>

theorem get_timing_point_counterexample:
  "built unsorted_beatmap
   \<and> timing_points unsorted_beatmap = [tp_1000, tp_320]
   \<and> TimingPoint.time tp_1000 = 1000
   \<and> get_timing_point unsorted_beatmap 500 = Inr tp_320
   \<and> get_timing_point unsorted_beatmap 1000 = Inr tp_320
   \<and> tp_320 \<noteq> tp_1000"
proof -
  have "timing_points unsorted_beatmap = [tp_1000, tp_320]"
    by (simp add: unsorted_beatmap_def)
  moreover have "TimingPoint.time tp_1000 = 1000" "tp_320 \<noteq> tp_1000"
    by (simp_all add: tp_320_def tp_1000_def)
  moreover have "get_timing_point unsorted_beatmap 500 = Inr tp_320"
    "get_timing_point unsorted_beatmap 1000 = Inr tp_320"
    by code_simp+
  ultimately show ?thesis using built_unsorted by simp
qed

text \<open>Where two points share a time, as a tempo point and a velocity point often do, the
  query at that time returns the later of the two in the list.\<close>

lemma same_time_steps:
  "add_timing_point Beatmap_init ''1000,500,4,2,0,40,1,0'' =
     Inr (Beatmap_init\<lparr>min_bpm := 120, max_bpm := 120, timing_points := [tp_1000_red]\<rparr>)"
  "add_timing_point (Beatmap_init\<lparr>min_bpm := 120, max_bpm := 120,
        timing_points := [tp_1000_red]\<rparr>) ''1000,-50,4,2,0,40,0,0'' = Inr same_time_beatmap"
  by code_simp+

lemma same_time_returns_last:
  "built same_time_beatmap
   \<and> timing_points same_time_beatmap = [tp_1000_red, tp_1000]
   \<and> TimingPoint.time tp_1000_red = 1000
   \<and> get_timing_point same_time_beatmap 1000 = Inr tp_1000"
proof -
  have "built same_time_beatmap"
    by (rule built.timing_point [OF built.timing_point [OF built.init same_time_steps(1)]
          same_time_steps(2)])
  moreover have "timing_points same_time_beatmap = [tp_1000_red, tp_1000]"
    by (simp add: same_time_beatmap_def)
  moreover have "TimingPoint.time tp_1000_red = 1000"
    by (simp add: tp_1000_red_def)
  moreover have "get_timing_point same_time_beatmap 1000 = Inr tp_1000"
    by code_simp
  ultimately show ?thesis by simp
qed

section \<open>Timing points: the tempo\<close>

lemma pow2_pos: "0 < pow2 k"
  by (simp add: pow2_def)

lemma round_half_even_nonneg: "0 \<le> q \<Longrightarrow> 0 \<le> round_half_even q"
  by (simp add: round_half_even_def Let_def)

lemma binary64_nonneg:
  assumes "0 \<le> q" and "binary64 q = Fin r"
  shows "0 \<le> r"
proof (cases "q = 0")
  case True
  then show ?thesis using assms by (simp add: binary64_def)
next
  case False
  define u where "u = pow2 (max (ilog2 \<bar>q\<bar>) (- 1022) - 52)"
  have u: "0 < u" by (simp add: u_def pow2_pos)
  have "0 \<le> \<bar>q\<bar> / u" using u by simp
  then have "0 \<le> round_half_even (\<bar>q\<bar> / u)" by (rule round_half_even_nonneg)
  then have "0 \<le> rat_of_int (round_half_even (\<bar>q\<bar> / u)) * u" using u by simp
  moreover have "r = rat_of_int (round_half_even (\<bar>q\<bar> / u)) * u"
    using assms False by (simp add: binary64_def Let_def u_def split: if_splits)
  ultimately show ?thesis by simp
qed

lemma tempo_nonneg:
  assumes "gt_zero beat_length"
    and "bind (truediv (Fin 60000) beat_length) py_round = Inr r"
  shows "0 \<le> r"
proof (cases beat_length)
  case (Fin q)
  with assms(1) have q: "0 < q" by simp
  from assms(2) Fin q obtain v where v: "binary64 (60000 / q) = v" "py_round v = Inr r"
    by (auto simp: bind_eq_Inr)
  then obtain s where s: "v = Fin s" "r = round_half_even s"
    by (cases v) (auto simp: py_round_def)
  have "0 \<le> s" using binary64_nonneg [of "60000 / q" s] q v s by simp
  then show ?thesis using s round_half_even_nonneg by simp
next
  case PInf
  then show ?thesis using assms(2) by (simp add: py_round_def round_half_even_def)
next
  case NInf
  then show ?thesis using assms(1) by simp
next
  case NaN
  then show ?thesis using assms(1) by simp
qed


lemma TimingPoint_parse_Inr:
  assumes "TimingPoint_parse line = Inr tp"
  shows "\<exists>beat_length. float_field line 1 = Inr beat_length
     \<and> (if gt_zero beat_length
         then \<exists>r. bind (truediv (Fin 60000) beat_length) py_round = Inr r
                \<and> bpm tp = (if r \<noteq> 0 then Some r else None) \<and> velocity tp = Fin 1
         else \<exists>q. truediv (Fin 100) beat_length = Inr q
                \<and> bpm tp = None \<and> velocity tp = py_abs q)"
proof -
  from assms obtain beat_length where bl: "float_field line 1 = Inr beat_length"
    by (cases "float_field line 1") (simp_all add: TimingPoint_parse_def Let_def)
  have fields: "bpm tp = (if b \<noteq> 0 then Some b else None) \<and> velocity tp = v"
    if "bind (Inr (b, v)) (\<lambda>(bpm', velocity').
     bind (bind (get (split_str '','' line) 7) py_int) (\<lambda>effects.
     bind (bind (get (split_str '','' line) 0) py_int) (\<lambda>time'.
     bind (bind (get (split_str '','' line) 2) py_int) (\<lambda>timing_signature'.
     bind (bind (get (split_str '','' line) 3) py_int) (\<lambda>sample_set'.
     bind (bind (get (split_str '','' line) 4) py_int) (\<lambda>sample_index'.
     bind (bind (get (split_str '','' line) 5) py_int) (\<lambda>volume'.
     bind (get (split_str '','' line) 6) (\<lambda>m6.
       Inr \<lparr> TimingPoint.time = time',
             velocity = velocity',
             timing_signature = timing_signature',
             sample_set = sample_set',
             sample_index = sample_index',
             volume = volume',
             uninherited = (m6 = ''1''),
             kiai_time = (effects AND 1 \<noteq> 0),
             omit_first_bar_line = (effects AND 4 \<noteq> 0),
             bpm = (if bpm' \<noteq> 0 then Some bpm' else None) \<rparr>)))))))) = Inr tp" for b v
    using that by (auto simp: bind_eq_Inr)
  show ?thesis
  proof (cases "gt_zero beat_length")
    case True
    from assms bl True obtain r where r: "bind (truediv (Fin 60000) beat_length) py_round = Inr r"
      by (cases "bind (truediv (Fin 60000) beat_length) py_round")
         (simp_all add: TimingPoint_parse_def Let_def)
    have "bpm tp = (if r \<noteq> 0 then Some r else None) \<and> velocity tp = Fin 1"
      using assms bl True r by (intro fields) (simp add: TimingPoint_parse_def Let_def)
    then show ?thesis using bl True r by simp
  next
    case False
    from assms bl False obtain q where q: "truediv (Fin 100) beat_length = Inr q"
      by (cases "truediv (Fin 100) beat_length")
         (simp_all add: TimingPoint_parse_def Let_def)
    have "bpm tp = (if (0::int) \<noteq> 0 then Some 0 else None) \<and> velocity tp = py_abs q"
      using assms bl False q by (intro fields) (simp add: TimingPoint_parse_def Let_def)
    then show ?thesis using bl False q by simp
  qed
qed

lemma TimingPoint_parse_bpm_pos:
  assumes "TimingPoint_parse line = Inr tp" and "bpm tp = Some b"
  shows "0 < b"
proof -
  from TimingPoint_parse_Inr [OF assms(1)] obtain beat_length where
    c: "if gt_zero beat_length
         then \<exists>r. bind (truediv (Fin 60000) beat_length) py_round = Inr r
                \<and> bpm tp = (if r \<noteq> 0 then Some r else None) \<and> velocity tp = Fin 1
         else \<exists>q. truediv (Fin 100) beat_length = Inr q
                \<and> bpm tp = None \<and> velocity tp = py_abs q"
    by blast
  show ?thesis
  proof (cases "gt_zero beat_length")
    case True
    with c obtain r where r: "bind (truediv (Fin 60000) beat_length) py_round = Inr r"
      "bpm tp = (if r \<noteq> 0 then Some r else None)" by auto
    from tempo_nonneg [OF True r(1)] r(2) assms(2) show ?thesis
      by (auto split: if_splits)
  next
    case False
    with c assms(2) show ?thesis by auto
  qed
qed


subsection \<open>The tempo bounds of a beatmap\<close>

lemma bpm_bounds_init: "bpm_bounds Beatmap_init"
  by (simp add: bpm_bounds_def Beatmap_init_def)

lemma bpm_bounds_add_timing_point:
  assumes "bpm_bounds bm" and "add_timing_point bm line = Inr bm'"
  shows "bpm_bounds bm'"
proof -
  from add_timing_point_Inr [OF assms(2)] obtain tp where
    p: "TimingPoint_parse line = Inr tp"
    and tps: "timing_points bm' = timing_points bm @ [tp]"
    and mn: "min_bpm bm' = (if min_bpm bm = 0 then (case bpm tp of Some b \<Rightarrow> b | None \<Rightarrow> 0)
                          else case bpm tp of Some b \<Rightarrow> (if b < min_bpm bm then b else min_bpm bm)
                               | None \<Rightarrow> min_bpm bm)"
    and mx: "max_bpm bm' = (if max_bpm bm = 0 then (case bpm tp of Some b \<Rightarrow> b | None \<Rightarrow> 0)
                          else case bpm tp of Some b \<Rightarrow> (if max_bpm bm < b then b else max_bpm bm)
                               | None \<Rightarrow> max_bpm bm)"
    by blast
  from assms(1) have pos: "\<forall>q \<in> set (timing_points bm). \<forall>b. bpm q = Some b \<longrightarrow> 0 < b"
    and old: "if \<forall>q \<in> set (timing_points bm). bpm q = None
              then min_bpm bm = 0 \<and> max_bpm bm = 0
              else 0 < min_bpm bm \<and> min_bpm bm \<le> max_bpm bm"
    by (simp_all add: bpm_bounds_def)
  show ?thesis
  proof (cases "bpm tp")
    case None
    have "(\<forall>q \<in> set (timing_points bm'). bpm q = None)
            = (\<forall>q \<in> set (timing_points bm). bpm q = None)"
      using tps None by auto
    moreover have "min_bpm bm' = min_bpm bm" "max_bpm bm' = max_bpm bm"
      using mn mx None by simp_all
    moreover have "\<forall>q \<in> set (timing_points bm'). \<forall>b. bpm q = Some b \<longrightarrow> 0 < b"
      using pos tps None by auto
    ultimately show ?thesis using old by (simp add: bpm_bounds_def)
  next
    case (Some b)
    from TimingPoint_parse_bpm_pos [OF p Some] have b: "0 < b" .
    have some: "\<not> (\<forall>q \<in> set (timing_points bm'). bpm q = None)"
      using tps Some by auto
    have pos': "\<forall>q \<in> set (timing_points bm'). \<forall>c. bpm q = Some c \<longrightarrow> 0 < c"
      using pos tps Some b by auto
    have "0 < min_bpm bm' \<and> min_bpm bm' \<le> max_bpm bm'"
    proof (cases "\<forall>q \<in> set (timing_points bm). bpm q = None")
      case True
      with old have "min_bpm bm = 0" "max_bpm bm = 0" by simp_all
      then show ?thesis using mn mx Some b by simp
    next
      case False
      with old have "0 < min_bpm bm" "min_bpm bm \<le> max_bpm bm" by simp_all
      then show ?thesis using mn mx Some b by simp
    qed
    then show ?thesis using some pos' by (simp add: bpm_bounds_def)
  qed
qed

lemma bpm_bounds_add_hit_object:
  assumes "bpm_bounds bm" and "add_hit_object bm line = Inr bm'"
  shows "bpm_bounds bm'"
proof -
  from add_hit_object_Inr [OF assms(2)] have "timing_points bm' = timing_points bm"
    "min_bpm bm' = min_bpm bm" "max_bpm bm' = max_bpm bm"
    by blast+
  then show ?thesis using assms(1) by (simp add: bpm_bounds_def)
qed

lemma bpm_bounds_built: "built bm \<Longrightarrow> bpm_bounds bm"
proof (induction rule: built.induct)
  case init
  show ?case by (rule bpm_bounds_init)
next
  case (timing_point bm line bm')
  then show ?case by (blast intro: bpm_bounds_add_timing_point)
next
  case (hit_object bm line bm')
  then show ?case by (blast intro: bpm_bounds_add_hit_object)
qed

text \<open>
  Claim C2, as amended. In every beatmap built by calls of the two \<^verbatim>\<open>add\<close> methods, the
  calls that the loop of \<^verbatim>\<open>parse_file_sync\<close> makes, if at least one timing point has a
  tempo (\<open>bpm\<close> present: a positive beat length whose tempo does not round to 0), then
  \<open>min_bpm \<le> max_bpm\<close> and both are positive. The uninherited field plays no part.
\<close>

theorem bpm_bounds_positive:
  assumes "built bm" and "\<exists>tp \<in> set (timing_points bm). bpm tp \<noteq> None"
  shows "min_bpm bm \<le> max_bpm bm \<and> 0 < min_bpm bm \<and> 0 < max_bpm bm"
proof -
  from assms(2) have "\<not> (\<forall>tp \<in> set (timing_points bm). bpm tp = None)" by simp
  with bpm_bounds_built [OF assms(1)] have "0 < min_bpm bm \<and> min_bpm bm \<le> max_bpm bm"
    by (simp add: bpm_bounds_def)
  then show ?thesis by simp
qed

theorem bpm_bounds_positive_witness:
  "built example_beatmap
   \<and> bpm tp_320 = Some 76 \<and> tp_320 \<in> set (timing_points example_beatmap)
   \<and> min_bpm example_beatmap = 76 \<and> max_bpm example_beatmap = 76"
proof -
  have t: "tp_320 \<in> set (timing_points example_beatmap)" "bpm tp_320 = Some 76"
    by (simp_all add: example_beatmap_def tp_320_def)
  then have "\<exists>tp \<in> set (timing_points example_beatmap). bpm tp \<noteq> None" by force
  from bpm_bounds_positive [OF built_example this] show ?thesis
    using built_example t by (simp add: example_beatmap_def)
qed

text \<open>
  The claim as stated fails: a timing point whose uninherited field reads \<^verbatim>\<open>1\<close> and
  whose beat length is negative has no tempo, and leaves both bounds at 0. So does the
  file that holds this line under \<^verbatim>\<open>[TimingPoints]\<close>.
\<close>

lemma marked_step:
  "add_timing_point Beatmap_init ''0,-100,4,2,0,40,1,0'' =
     Inr (Beatmap_init\<lparr>timing_points := [tp_0_marked]\<rparr>)"
  by code_simp

theorem uninherited_without_tempo_counterexample:
  "add_timing_point Beatmap_init ''0,-100,4,2,0,40,1,0'' =
     Inr (Beatmap_init\<lparr>timing_points := [tp_0_marked]\<rparr>)
   \<and> uninherited tp_0_marked
   \<and> min_bpm (Beatmap_init\<lparr>timing_points := [tp_0_marked]\<rparr>) = 0
   \<and> max_bpm (Beatmap_init\<lparr>timing_points := [tp_0_marked]\<rparr>) = 0
   \<and> parse_file_sync
        [''map.osu'' \<mapsto> ''[TimingPoints]'' @ CRLF @ ''0,-100,4,2,0,40,1,0'' @ CRLF] ''map.osu''
       = Inr Beatmap_init
   \<and> min_bpm Beatmap_init = 0"
proof -
  have "parse_file_sync
        [''map.osu'' \<mapsto> ''[TimingPoints]'' @ CRLF @ ''0,-100,4,2,0,40,1,0'' @ CRLF] ''map.osu''
       = Inr Beatmap_init"
    by (rule parse_file_sync_default) simp
  then show ?thesis
    using marked_step by (simp add: tp_0_marked_def Beatmap_init_def)
qed

section \<open>Timing points: tempo or velocity\<close>

lemma TimingPoint_parse_fields:
  assumes "float_field line 1 = Inr b"
    and "int_field line 7 = Inr eff" and "int_field line 0 = Inr t"
    and "int_field line 2 = Inr sg" and "int_field line 3 = Inr ss"
    and "int_field line 4 = Inr si" and "int_field line 5 = Inr vol"
  shows "TimingPoint_parse line =
     bind (tempo_and_velocity b) (\<lambda>(bpm', velocity').
       Inr \<lparr>TimingPoint.time = t, velocity = velocity', timing_signature = sg,
            sample_set = ss, sample_index = si, volume = vol,
            uninherited = (split_str '','' line ! 6 = ''1''),
            kiai_time = (eff AND 1 \<noteq> 0), omit_first_bar_line = (eff AND 4 \<noteq> 0),
            bpm = (if bpm' \<noteq> 0 then Some bpm' else None)\<rparr>)"
proof -
  have "get (split_str '','' line) 7 \<noteq> Inl IndexError"
    using assms(2) by (auto simp: bind_eq_Inr)
  then have "6 < length (split_str '','' line)"
    by (simp add: get_def split: if_splits)
  then have "get (split_str '','' line) 6 = Inr (split_str '','' line ! 6)"
    by (simp add: get_def)
  then show ?thesis
    using assms
    by (cases "tempo_and_velocity b")
       (auto simp: TimingPoint_parse_def Let_def tempo_and_velocity_def)
qed

lemma binary64_pos_cases:
  "0 < q \<Longrightarrow> binary64 q = PInf \<or> (\<exists>r. binary64 q = Fin r)"
  by (simp add: binary64_def Let_def)

lemma py_abs_binary64: "py_abs (binary64 q) = binary64 \<bar>q\<bar>"
proof -
  define u where "u = pow2 (max (ilog2 \<bar>q\<bar>) (- 1022) - 52)"
  define r where "r = rat_of_int (round_half_even (\<bar>q\<bar> / u)) * u"
  have u: "0 < u" by (simp add: u_def pow2_pos)
  have "0 \<le> \<bar>q\<bar> / u" using u by simp
  then have "0 \<le> round_half_even (\<bar>q\<bar> / u)" by (rule round_half_even_nonneg)
  then have r: "0 \<le> r" using u by (simp add: r_def)
  consider "q = 0" | "0 < q" | "q < 0" by linarith
  then show ?thesis
  proof cases
    case 1
    then show ?thesis by (simp add: binary64_def)
  next
    case 2
    then have "binary64 q = (if pow2 1024 \<le> r then PInf else Fin r)"
      by (simp add: binary64_def Let_def u_def r_def)
    then show ?thesis using 2 r by simp
  next
    case 3
    then have a: "binary64 q = (if pow2 1024 \<le> r then NInf else Fin (- r))"
      by (simp add: binary64_def Let_def u_def r_def)
    from 3 have "binary64 \<bar>q\<bar> = (if pow2 1024 \<le> r then PInf else Fin r)"
      by (simp add: binary64_def Let_def u_def r_def)
    then show ?thesis using a r by simp
  qed
qed

lemma tempo_of_positive:
  assumes "gt_zero b"
  shows "(\<exists>q. truediv (Fin 60000) b = Inr (Fin q)
            \<and> tempo_and_velocity b = Inr (round_half_even q, Fin 1))
       \<or> (truediv (Fin 60000) b = Inr PInf \<and> tempo_and_velocity b = Inl OverflowError)"
proof (cases b)
  case (Fin a)
  with assms have a: "0 < a" by simp
  then have "0 < 60000 / a" by simp
  from binary64_pos_cases [OF this] show ?thesis
    using a Fin by (auto simp: tempo_and_velocity_def py_round_def)
next
  case PInf
  then show ?thesis by (simp add: tempo_and_velocity_def py_round_def)
next
  case NInf
  then show ?thesis using assms by simp
next
  case NaN
  then show ?thesis using assms by simp
qed

lemma velocity_of_negative:
  assumes "lt_zero b"
  shows "\<exists>v. truediv (Fin 100) (py_abs b) = Inr v \<and> tempo_and_velocity b = Inr (0, v)"
proof (cases b)
  case (Fin a)
  with assms have a: "a < 0" by simp
  then have "\<bar>100 / a\<bar> = 100 / \<bar>a\<bar>" by simp
  then show ?thesis
    using a Fin by (simp add: tempo_and_velocity_def py_abs_binary64)
next
  case PInf
  then show ?thesis using assms by simp
next
  case NInf
  then show ?thesis by (simp add: tempo_and_velocity_def)
next
  case NaN
  then show ?thesis using assms by simp
qed

lemma tempo_and_velocity_zero: "tempo_and_velocity (Fin 0) = Inl ZeroDivisionError"
  by (simp add: tempo_and_velocity_def)

lemma tempo_and_velocity_nan: "tempo_and_velocity NaN = Inr (0, NaN)"
  by (simp add: tempo_and_velocity_def)

lemma get_list_update: "i \<noteq> j \<Longrightarrow> get (xs[j := u]) i = get xs i"
  by (simp add: get_def)

text \<open>
  Claim C3, as amended. Take a timing-point line whose second field parses as the float
  \<open>b\<close> and whose fields 1, 3, 4, 5, 6 and 8 parse as integers. If \<open>b > 0\<close> then either
  \<^verbatim>\<open>60000 / b\<close> is a finite float \<open>q\<close> and \<^verbatim>\<open>TimingPoint.parse\<close> returns a point with
  \<open>bpm = round(q)\<close>, absent when that is 0, and \<open>velocity = 1.0\<close>; or \<^verbatim>\<open>60000 / b\<close>
  overflows to infinity and \<^verbatim>\<open>round\<close> raises \<^verbatim>\<open>OverflowError\<close>. If \<open>b < 0\<close> then it
  returns a point with \<open>bpm\<close> absent and \<open>velocity = 100 / |b|\<close>. If \<open>b = 0\<close> then it raises
  \<^verbatim>\<open>ZeroDivisionError\<close>. If \<open>b\<close> is not-a-number then it returns a point with \<open>bpm\<close>
  absent and \<open>velocity\<close> not-a-number. The seventh field, \<open>uninherited\<close>, plays no
  part: a line that differs from this one in the seventh field alone has the same result
  as far as \<open>bpm\<close> and \<open>velocity\<close> go, or the same exception.
\<close>

theorem timing_point_tempo_or_velocity:
  assumes "float_field line 1 = Inr b"
    and "int_field line 7 = Inr eff" and "int_field line 0 = Inr t"
    and "int_field line 2 = Inr sg" and "int_field line 3 = Inr ss"
    and "int_field line 4 = Inr si" and "int_field line 5 = Inr vol"
  shows "(gt_zero b \<longrightarrow>
            (\<exists>q tp. truediv (Fin 60000) b = Inr (Fin q) \<and> TimingPoint_parse line = Inr tp
               \<and> bpm tp = (if round_half_even q = 0 then None else Some (round_half_even q))
               \<and> velocity tp = Fin 1)
          \<or> (truediv (Fin 60000) b = Inr PInf \<and> TimingPoint_parse line = Inl OverflowError))
       \<and> (lt_zero b \<longrightarrow>
            (\<exists>v tp. truediv (Fin 100) (py_abs b) = Inr v \<and> TimingPoint_parse line = Inr tp
               \<and> bpm tp = None \<and> velocity tp = v))
       \<and> (b = Fin 0 \<longrightarrow> TimingPoint_parse line = Inl ZeroDivisionError)
       \<and> (b = NaN \<longrightarrow>
            (\<exists>tp. TimingPoint_parse line = Inr tp \<and> bpm tp = None \<and> velocity tp = NaN))
       \<and> (split_str '','' line' = (split_str '','' line)[6 := u] \<longrightarrow>
            map_sum id (\<lambda>tp. (bpm tp, velocity tp)) (TimingPoint_parse line')
            = map_sum id (\<lambda>tp. (bpm tp, velocity tp)) (TimingPoint_parse line))"
proof (intro conjI impI)
  note p = TimingPoint_parse_fields [OF assms]
  {
    assume "gt_zero b"
    from tempo_of_positive [OF this]
    show "(\<exists>q tp. truediv (Fin 60000) b = Inr (Fin q) \<and> TimingPoint_parse line = Inr tp
               \<and> bpm tp = (if round_half_even q = 0 then None else Some (round_half_even q))
               \<and> velocity tp = Fin 1)
          \<or> (truediv (Fin 60000) b = Inr PInf \<and> TimingPoint_parse line = Inl OverflowError)"
    proof
      assume "\<exists>q. truediv (Fin 60000) b = Inr (Fin q)
            \<and> tempo_and_velocity b = Inr (round_half_even q, Fin 1)"
      then obtain q where q: "truediv (Fin 60000) b = Inr (Fin q)"
        "tempo_and_velocity b = Inr (round_half_even q, Fin 1)" by auto
      show ?thesis
        by (rule disjI1, rule exI [of _ q]) (simp add: p q)
    next
      assume "truediv (Fin 60000) b = Inr PInf \<and> tempo_and_velocity b = Inl OverflowError"
      then show ?thesis by (simp add: p)
    qed
  }
  {
    assume "lt_zero b"
    from velocity_of_negative [OF this] obtain v where
      v: "truediv (Fin 100) (py_abs b) = Inr v" "tempo_and_velocity b = Inr (0, v)" by auto
    show "\<exists>v tp. truediv (Fin 100) (py_abs b) = Inr v \<and> TimingPoint_parse line = Inr tp
               \<and> bpm tp = None \<and> velocity tp = v"
      by (rule exI [of _ v]) (simp add: p v)
  }
  {
    assume "b = Fin 0"
    then show "TimingPoint_parse line = Inl ZeroDivisionError"
      by (simp add: p tempo_and_velocity_zero)
  }
  {
    assume "b = NaN"
    then show "\<exists>tp. TimingPoint_parse line = Inr tp \<and> bpm tp = None \<and> velocity tp = NaN"
      by (simp add: p tempo_and_velocity_nan)
  }
  {
    assume s: "split_str '','' line' = (split_str '','' line)[6 := u]"
    have "TimingPoint_parse line' =
     bind (tempo_and_velocity b) (\<lambda>(bpm', velocity').
       Inr \<lparr>TimingPoint.time = t, velocity = velocity', timing_signature = sg,
            sample_set = ss, sample_index = si, volume = vol,
            uninherited = (split_str '','' line' ! 6 = ''1''),
            kiai_time = (eff AND 1 \<noteq> 0), omit_first_bar_line = (eff AND 4 \<noteq> 0),
            bpm = (if bpm' \<noteq> 0 then Some bpm' else None)\<rparr>)"
      using assms by (intro TimingPoint_parse_fields) (simp_all add: s get_list_update)
    then show "map_sum id (\<lambda>tp. (bpm tp, velocity tp)) (TimingPoint_parse line')
            = map_sum id (\<lambda>tp. (bpm tp, velocity tp)) (TimingPoint_parse line)"
      by (cases "tempo_and_velocity b") (auto simp: p)
  }
qed

theorem timing_point_tempo_or_velocity_witness:
  "(float_field ''0,500,4,2,0,40,1,0'' 1 = Inr (Fin 500) \<and> gt_zero (Fin 500)
      \<and> truediv (Fin 60000) (Fin 500) = Inr (Fin 120)
      \<and> map_sum id (\<lambda>tp. (bpm tp, velocity tp)) (TimingPoint_parse ''0,500,4,2,0,40,1,0'')
        = Inr (Some 120, Fin 1))
   \<and> (float_field ''1000,-50,4,2,0,40,0,0'' 1 = Inr (Fin (- 50)) \<and> lt_zero (Fin (- 50))
      \<and> truediv (Fin 100) (py_abs (Fin (- 50))) = Inr (Fin 2)
      \<and> map_sum id (\<lambda>tp. (bpm tp, velocity tp)) (TimingPoint_parse ''1000,-50,4,2,0,40,0,0'')
        = Inr (None, Fin 2))
   \<and> (float_field ''0,0,4,2,0,40,0,0'' 1 = Inr (Fin 0)
      \<and> TimingPoint_parse ''0,0,4,2,0,40,0,0'' = Inl ZeroDivisionError)
   \<and> (float_field ''0,nan,4,2,0,40,0,0'' 1 = Inr NaN
      \<and> map_sum id (\<lambda>tp. (bpm tp, velocity tp)) (TimingPoint_parse ''0,nan,4,2,0,40,0,0'')
        = Inr (None, NaN))
   \<and> (split_str '','' ''0,500,4,2,0,40,0,0'' = (split_str '','' ''0,500,4,2,0,40,1,0'')[6 := ''0'']
      \<and> map_sum id (\<lambda>tp. (bpm tp, velocity tp)) (TimingPoint_parse ''0,500,4,2,0,40,0,0'')
        = Inr (Some 120, Fin 1))"
proof -
  have f1: "float_field ''0,500,4,2,0,40,1,0'' 1 = Inr (Fin 500)" by code_simp
  have i1: "int_field ''0,500,4,2,0,40,1,0'' 7 = Inr 0" "int_field ''0,500,4,2,0,40,1,0'' 0 = Inr 0"
    "int_field ''0,500,4,2,0,40,1,0'' 2 = Inr 4" "int_field ''0,500,4,2,0,40,1,0'' 3 = Inr 2"
    "int_field ''0,500,4,2,0,40,1,0'' 4 = Inr 0" "int_field ''0,500,4,2,0,40,1,0'' 5 = Inr 40"
    by code_simp+
  have d1: "truediv (Fin 60000) (Fin 500) = Inr (Fin 120)" by code_simp
  have s1: "split_str '','' ''0,500,4,2,0,40,0,0''
      = (split_str '','' ''0,500,4,2,0,40,1,0'')[6 := ''0'']" by code_simp
  have r1: "round_half_even 120 = 120" by code_simp
  note t1 = timing_point_tempo_or_velocity [OF f1 i1, of "''0,500,4,2,0,40,0,0''" "''0''"]
  have a: "map_sum id (\<lambda>tp. (bpm tp, velocity tp)) (TimingPoint_parse ''0,500,4,2,0,40,1,0'')
        = Inr (Some 120, Fin 1)"
    using t1 d1 r1 by auto
  have e: "map_sum id (\<lambda>tp. (bpm tp, velocity tp)) (TimingPoint_parse ''0,500,4,2,0,40,0,0'')
        = Inr (Some 120, Fin 1)"
    using t1 s1 a by simp
  have f2: "float_field ''1000,-50,4,2,0,40,0,0'' 1 = Inr (Fin (- 50))" by code_simp
  have i2: "int_field ''1000,-50,4,2,0,40,0,0'' 7 = Inr 0"
    "int_field ''1000,-50,4,2,0,40,0,0'' 0 = Inr 1000"
    "int_field ''1000,-50,4,2,0,40,0,0'' 2 = Inr 4" "int_field ''1000,-50,4,2,0,40,0,0'' 3 = Inr 2"
    "int_field ''1000,-50,4,2,0,40,0,0'' 4 = Inr 0" "int_field ''1000,-50,4,2,0,40,0,0'' 5 = Inr 40"
    by code_simp+
  have d2: "truediv (Fin 100) (py_abs (Fin (- 50))) = Inr (Fin 2)" by code_simp
  have b: "map_sum id (\<lambda>tp. (bpm tp, velocity tp)) (TimingPoint_parse ''1000,-50,4,2,0,40,0,0'')
        = Inr (None, Fin 2)"
    using timing_point_tempo_or_velocity [OF f2 i2, of "[]" "[]"] d2 by auto
  have f3: "float_field ''0,0,4,2,0,40,0,0'' 1 = Inr (Fin 0)" by code_simp
  have i3: "int_field ''0,0,4,2,0,40,0,0'' 7 = Inr 0" "int_field ''0,0,4,2,0,40,0,0'' 0 = Inr 0"
    "int_field ''0,0,4,2,0,40,0,0'' 2 = Inr 4" "int_field ''0,0,4,2,0,40,0,0'' 3 = Inr 2"
    "int_field ''0,0,4,2,0,40,0,0'' 4 = Inr 0" "int_field ''0,0,4,2,0,40,0,0'' 5 = Inr 40"
    by code_simp+
  have c: "TimingPoint_parse ''0,0,4,2,0,40,0,0'' = Inl ZeroDivisionError"
    using timing_point_tempo_or_velocity [OF f3 i3, of "[]" "[]"] by simp
  have f4: "float_field ''0,nan,4,2,0,40,0,0'' 1 = Inr NaN" by code_simp
  have i4: "int_field ''0,nan,4,2,0,40,0,0'' 7 = Inr 0" "int_field ''0,nan,4,2,0,40,0,0'' 0 = Inr 0"
    "int_field ''0,nan,4,2,0,40,0,0'' 2 = Inr 4" "int_field ''0,nan,4,2,0,40,0,0'' 3 = Inr 2"
    "int_field ''0,nan,4,2,0,40,0,0'' 4 = Inr 0" "int_field ''0,nan,4,2,0,40,0,0'' 5 = Inr 40"
    by code_simp+
  have d: "map_sum id (\<lambda>tp. (bpm tp, velocity tp)) (TimingPoint_parse ''0,nan,4,2,0,40,0,0'')
        = Inr (None, NaN)"
    using timing_point_tempo_or_velocity [OF f4 i4, of "[]" "[]"] by auto
  show ?thesis
    using f1 d1 a f2 d2 b f3 c f4 d s1 e by simp
qed

text \<open>
  The claim as stated, for \<open>b \<le> 0\<close> a returned point with \<open>velocity = 100 / |b|\<close>, fails
  at \<open>b = 0\<close>: the line below has the beat length \<^verbatim>\<open>0\<close>, every other field parses, and
  \<^verbatim>\<open>100 / beat_length\<close> raises \<^verbatim>\<open>ZeroDivisionError\<close>, so that no point is returned.
\<close>

theorem zero_beat_length_counterexample:
  "float_field ''0,0,4,2,0,40,0,0'' 1 = Inr (Fin 0)
   \<and> \<not> gt_zero (Fin 0)
   \<and> TimingPoint_parse ''0,0,4,2,0,40,0,0'' = Inl ZeroDivisionError"
  by code_simp

end
